theory Spec2Isabelle
  imports Complex_Main
begin

section \<open>Errors and arrays\<close>

text \<open>
  The Python exceptions the modelled code can raise. \<open>ValueError\<close> is what numpy raises
  for the maximum of an empty array, for operands that cannot be broadcast together and
  for a sample larger than its population; \<open>IndexError\<close> is \<open>others[0]\<close> on an empty list;
  \<open>ZeroDivisionError\<close> is a division by a zero sample rate; \<open>AttributeError\<close> is the
  \<open>loudness\<close> attribute asked of a plain array; \<open>int()\<close> raises ValueError on a NaN and
  \<open>OverflowError\<close> on an infinity; \<open>TypeError\<close> is the product of an integer and \<open>None\<close>.
\<close>

datatype error =
  ValueError | IndexError | ZeroDivisionError | AttributeError | OverflowError | TypeError

text \<open>
  A two-dimensional numpy array of shape \<open>(num_samples, num_channels)\<close>: a list of
  frames, each a list of channel samples. Samples are modelled as real numbers.
\<close>

type_synonym ndarray = "real list list"

section \<open>utilities.ensure_audio_doesnt_clip\<close>

text \<open>\<open>np.max(np.abs(audio))\<close>; numpy raises ValueError on an array without elements.\<close>

definition array_peak :: "ndarray \<Rightarrow> error + real" where
  "array_peak audio =
     (case concat audio of
        [] \<Rightarrow> Inl ValueError
      | s # ss \<Rightarrow> Inr (fold max (map abs ss) \<bar>s\<bar>))"

text \<open>
  The first loop (lines 105 to 109): \<open>max_peak\<close> is the accumulator, started at 1 by the
  caller, and replaced by a buffer's peak only when that peak is strictly larger.
\<close>

fun scan_peaks :: "real \<Rightarrow> ndarray list \<Rightarrow> error + real" where
  "scan_peaks max_peak [] = Inr max_peak"
| "scan_peaks max_peak (audio # rest) =
     (case array_peak audio of
        Inl e \<Rightarrow> Inl e
      | Inr audio_peak \<Rightarrow>
          scan_peaks (if audio_peak > max_peak then audio_peak else max_peak) rest)"

text \<open>\<open>audio * gain\<close>: a new array, every sample multiplied by the scalar.\<close>

definition scale :: "real \<Rightarrow> ndarray \<Rightarrow> ndarray" where
  "scale gain audio = map (map (\<lambda>s. s * gain)) audio"

text \<open>
  The result pairs the list that is returned with a flag that tells whether the warning
  was printed. Both branches of the source's \<open>if max_peak >= 1\<close> are kept.
\<close>

definition ensure_audio_doesnt_clip :: "ndarray list \<Rightarrow> error + (bool \<times> ndarray list)" where
  "ensure_audio_doesnt_clip list_of_arrays =
     (case scan_peaks 1 list_of_arrays of
        Inl e \<Rightarrow> Inl e
      | Inr max_peak \<Rightarrow>
          if max_peak \<ge> 1
          then Inr (True, map (scale (0.999 / max_peak)) list_of_arrays)
          else Inr (False, list_of_arrays))"

text \<open>The samples of a whole collection, and its peak \<open>max(|sample|)\<close>.\<close>

definition all_samples :: "ndarray list \<Rightarrow> real list" where
  "all_samples arrays = concat (map concat arrays)"

definition collection_peak :: "ndarray list \<Rightarrow> real" where
  "collection_peak arrays = Max (abs ` set (all_samples arrays))"

section \<open>Spectrograms and the degradation steps of anchors.py\<close>

text \<open>
  A spectrogram is a complex array indexed \<open>[frequency_bin][time_frame][channel]\<close>.
  \<open>spec_shape\<close> is its \<open>shape\<close>, \<open>num_frames_of\<close> its \<open>num_frames\<close> (the length of
  the time axis) and \<open>spec_size\<close> its \<open>size\<close>.
\<close>

type_synonym spectrogram = "complex list list list"

definition spec_shape :: "spectrogram \<Rightarrow> nat \<times> nat \<times> nat" where
  "spec_shape x_fft =
     (case x_fft of
        [] \<Rightarrow> (0, 0, 0)
      | b # _ \<Rightarrow> (length x_fft, length b, (case b of [] \<Rightarrow> 0 | fr # _ \<Rightarrow> length fr)))"

definition num_frames_of :: "spectrogram \<Rightarrow> nat" where
  "num_frames_of x_fft = fst (snd (spec_shape x_fft))"

definition spec_size :: "spectrogram \<Rightarrow> nat" where
  "spec_size x_fft = (case spec_shape x_fft of (F, T, C) \<Rightarrow> F * T * C)"

text \<open>
  A Python float is an IEEE 754 binary64 number: a real number with a significand of 53
  bits, an infinity or a NaN. \<open>round_double\<close> is the rounding of a real result to the
  nearest such number, ties to the even significand: \<open>binade\<close> is the exponent of the
  argument, \<open>ulp\<close> the spacing of the floats there (from \<open>2^-1074\<close> in the subnormal range),
  and a result of magnitude \<open>2^1024\<close> or more overflows to an infinity.
\<close>

datatype pyfloat = Finite real | PosInf | NegInf | NaN

definition binade :: "real \<Rightarrow> int" where
  "binade x = \<lfloor>log 2 \<bar>x\<bar>\<rfloor>"

definition round_half_even :: "real \<Rightarrow> int" where
  "round_half_even y =
     (if y - of_int \<lfloor>y\<rfloor> < 1/2 then \<lfloor>y\<rfloor>
      else if 1/2 < y - of_int \<lfloor>y\<rfloor> then \<lfloor>y\<rfloor> + 1
      else if even \<lfloor>y\<rfloor> then \<lfloor>y\<rfloor> else \<lfloor>y\<rfloor> + 1)"

definition ulp :: "real \<Rightarrow> real" where
  "ulp x = 2 powr of_int (max (binade x) (-1022) - 52)"

definition round_double :: "real \<Rightarrow> pyfloat" where
  "round_double x =
     (if x = 0 then Finite 0
      else (let r = ulp x * of_int (round_half_even (x / ulp x))
            in if 2 powr 1024 \<le> \<bar>r\<bar> then (if 0 < x then PosInf else NegInf)
               else Finite r))"

text \<open>The product of two floats; the sign of a zero is not modelled.\<close>

fun float_mul :: "pyfloat \<Rightarrow> pyfloat \<Rightarrow> pyfloat" where
  "float_mul (Finite x) (Finite y) = round_double (x * y)"
| "float_mul NaN _ = NaN"
| "float_mul _ NaN = NaN"
| "float_mul (Finite x) PosInf = (if x = 0 then NaN else if 0 < x then PosInf else NegInf)"
| "float_mul (Finite x) NegInf = (if x = 0 then NaN else if 0 < x then NegInf else PosInf)"
| "float_mul PosInf (Finite y) = (if y = 0 then NaN else if 0 < y then PosInf else NegInf)"
| "float_mul NegInf (Finite y) = (if y = 0 then NaN else if 0 < y then NegInf else PosInf)"
| "float_mul PosInf PosInf = PosInf"
| "float_mul PosInf NegInf = NegInf"
| "float_mul NegInf PosInf = NegInf"
| "float_mul NegInf NegInf = PosInf"

text \<open>
  \<open>n * f\<close> for a Python integer \<open>n\<close> and a float \<open>f\<close>: the integer is converted to a
  float (OverflowError when it is too large for one) and the floats are multiplied.
\<close>

definition int_times_float :: "nat \<Rightarrow> pyfloat \<Rightarrow> error + pyfloat" where
  "int_times_float n f =
     (case round_double (real n) of
        Finite a \<Rightarrow> Inr (float_mul (Finite a) f)
      | _ \<Rightarrow> Inl OverflowError)"

text \<open>
  Python's \<open>int()\<close> on a float truncates towards zero; it raises ValueError on a NaN and
  OverflowError on an infinity.
\<close>

definition truncation :: "real \<Rightarrow> int" where
  "truncation r = (if r \<ge> 0 then \<lfloor>r\<rfloor> else \<lceil>r\<rceil>)"

definition py_int :: "pyfloat \<Rightarrow> error + int" where
  "py_int x =
     (case x of
        Finite r \<Rightarrow> Inr (truncation r)
      | NaN \<Rightarrow> Inl ValueError
      | _ \<Rightarrow> Inl OverflowError)"

text \<open>\<open>int(n * distortion_factor)\<close>, the number of frames or cells to zero.\<close>

definition dropout_count :: "nat \<Rightarrow> pyfloat \<Rightarrow> error + int" where
  "dropout_count n distortion_factor =
     (case int_times_float n distortion_factor of
        Inl e \<Rightarrow> Inl e
      | Inr product \<Rightarrow> py_int product)"

text \<open>
  \<open>np.random.choice(a, size, replace=False)\<close> for an integer population \<open>a\<close>. The
  generator is a state \<open>g\<close> with the operation \<open>perm\<close> that draws a permutation of
  \<open>range(a)\<close> and returns the next state; numpy takes the first \<open>size\<close> entries of that
  permutation. A negative size, or one larger than the population, raises ValueError
  before anything is drawn.
\<close>

definition random_choice ::
  "('g \<Rightarrow> nat \<Rightarrow> nat list \<times> 'g) \<Rightarrow> 'g \<Rightarrow> nat \<Rightarrow> int \<Rightarrow> error + (nat list \<times> 'g)" where
  "random_choice perm g a sz =
     (if sz < 0 \<or> int a < sz then Inl ValueError
      else (case perm g a of (p, g') \<Rightarrow> Inr (take (nat sz) p, g')))"

text \<open>\<open>x_fft[:, idx] = 0\<close>: in every bin, each frame whose index is in \<open>idx\<close> becomes zero.\<close>

definition zero_frames :: "nat list \<Rightarrow> spectrogram \<Rightarrow> spectrogram" where
  "zero_frames idx x_fft =
     map (\<lambda>bin. map (\<lambda>(t, fr). if t \<in> set idx then map (\<lambda>_. 0) fr else fr)
                     (enumerate 0 bin)) x_fft"

text \<open>Lines 82 to 90 of \<open>distorted_target\<close>.\<close>

definition frame_dropout ::
  "('g \<Rightarrow> nat \<Rightarrow> nat list \<times> 'g) \<Rightarrow> 'g \<Rightarrow> pyfloat option \<Rightarrow> spectrogram
     \<Rightarrow> error + (spectrogram \<times> 'g)" where
  "frame_dropout perm g distortion_factor x_fft =
     (case distortion_factor of
        None \<Rightarrow> Inr (x_fft, g)
      | Some f \<Rightarrow>
          (case dropout_count (num_frames_of x_fft) f of
             Inl e \<Rightarrow> Inl e
           | Inr num_frames_to_remove \<Rightarrow>
               (case random_choice perm g (num_frames_of x_fft) num_frames_to_remove of
                  Inl e \<Rightarrow> Inl e
                | Inr (idx, g') \<Rightarrow> Inr (zero_frames idx x_fft, g'))))"

text \<open>\<open>np.unravel_index\<close> for a three-dimensional shape, in C order.\<close>

definition unravel_index :: "nat \<Rightarrow> nat \<times> nat \<times> nat \<Rightarrow> nat \<times> nat \<times> nat" where
  "unravel_index i shape =
     (case shape of (F, T, C) \<Rightarrow> (i div (T * C), (i div C) mod T, i mod C))"

definition zero_cell :: "spectrogram \<Rightarrow> nat \<times> nat \<times> nat \<Rightarrow> spectrogram" where
  "zero_cell x_fft cell =
     (case cell of (f, t, c) \<Rightarrow>
        x_fft[f := (x_fft ! f)[t := (x_fft ! f ! t)[c := 0]]])"

text \<open>\<open>x_fft[freq, time, channel] = 0\<close> for the unravelled indices.\<close>

definition zero_cells :: "nat list \<Rightarrow> spectrogram \<Rightarrow> spectrogram" where
  "zero_cells idx x_fft =
     fold (\<lambda>i x. zero_cell x (unravel_index i (spec_shape x_fft))) idx x_fft"

text \<open>
  Lines 148 to 154 of \<open>musical_noise\<close>. The factor has no \<open>None\<close> test here: the product
  of the size and \<open>None\<close> raises TypeError.
\<close>

definition bin_dropout ::
  "('g \<Rightarrow> nat \<Rightarrow> nat list \<times> 'g) \<Rightarrow> 'g \<Rightarrow> pyfloat option \<Rightarrow> spectrogram
     \<Rightarrow> error + (spectrogram \<times> 'g)" where
  "bin_dropout perm g distortion_factor x_fft =
     (case distortion_factor of
        None \<Rightarrow> Inl TypeError
      | Some f \<Rightarrow>
          (case dropout_count (spec_size x_fft) f of
             Inl e \<Rightarrow> Inl e
           | Inr k \<Rightarrow>
               (case random_choice perm g (spec_size x_fft) k of
                  Inl e \<Rightarrow> Inl e
                | Inr (idx, g') \<Rightarrow> Inr (zero_cells idx x_fft, g'))))"

text \<open>
  Modelled from the spec: \<open>untwist.utilities.conversion.nearest_bin\<close>, a helper of the
  untwist library that is not part of this repository. The spec gives the index as the
  cutoff frequency rounded to the nearest bin, \<open>round(cutoff / sample_rate * num_points)\<close>.
  The division by a zero sample rate is Python's ZeroDivisionError.
\<close>

definition nearest_bin :: "real \<Rightarrow> nat \<Rightarrow> nat \<Rightarrow> error + int" where
  "nearest_bin freq num_points sample_rate =
     (if sample_rate = 0 then Inl ZeroDivisionError
      else Inr (round (freq / real sample_rate * real num_points)))"

text \<open>
  The start of the Python slice \<open>[cutoff:]\<close> on an axis of length \<open>n\<close>: a negative
  index counts from the end, and the result is clipped to the axis.
\<close>

definition slice_start :: "int \<Rightarrow> nat \<Rightarrow> nat" where
  "slice_start k n = (if k < 0 then nat (max 0 (int n + k)) else min (nat k) n)"

text \<open>\<open>x_fft[cutoff:] = 0\<close>.\<close>

definition zero_bins_from :: "int \<Rightarrow> spectrogram \<Rightarrow> spectrogram" where
  "zero_bins_from cutoff x_fft =
     (let k = slice_start cutoff (length x_fft)
      in take k x_fft @ map (map (map (\<lambda>_. 0))) (drop k x_fft))"

text \<open>Lines 92 to 96 of \<open>distorted_target\<close> (and 156 to 160 of \<open>musical_noise\<close>).\<close>

definition lowpass ::
  "real option \<Rightarrow> nat \<Rightarrow> nat \<Rightarrow> spectrogram \<Rightarrow> error + spectrogram" where
  "lowpass lowpass_cutoff num_points sample_rate x_fft =
     (case lowpass_cutoff of
        None \<Rightarrow> Inr x_fft
      | Some c \<Rightarrow>
          (case nearest_bin c num_points sample_rate of
             Inl e \<Rightarrow> Inl e
           | Inr cutoff \<Rightarrow> Inr (zero_bins_from cutoff x_fft)))"

text \<open>
  A spectrogram of shape \<open>(F, T, C)\<close>: \<open>F\<close> bins of \<open>T\<close> frames of \<open>C\<close> channels.
\<close>

definition has_shape :: "nat \<Rightarrow> nat \<Rightarrow> nat \<Rightarrow> spectrogram \<Rightarrow> bool" where
  "has_shape F T C x_fft =
     (length x_fft = F
      \<and> (\<forall>b<F. length (x_fft ! b) = T \<and> (\<forall>t<T. length (x_fft ! b ! t) = C)))"

text \<open>
  The frames of a spectrogram that are zero in every bin and channel.
\<close>

definition zeroed_frame_indices :: "spectrogram \<Rightarrow> nat list" where
  "zeroed_frame_indices x_fft =
     filter (\<lambda>t. list_all (\<lambda>bin. list_all (\<lambda>v. v = 0) (bin ! t)) x_fft)
       [0..<num_frames_of x_fft]"

section \<open>Wave objects, the object store and the external services\<close>

text \<open>
  A \<open>Wave\<close> of the untwist library: the samples and the sample rate. Waves are mutable
  Python objects, and the pipelines assign to their \<open>loudness\<close> property, so they live in
  an object store: a reference is an index into the list of objects, and a new object is
  appended.
\<close>

record wave =
  samples :: ndarray
  sample_rate :: nat

type_synonym ref = nat

type_synonym heap = "wave list"

definition alloc :: "heap \<Rightarrow> wave \<Rightarrow> ref \<times> heap" where
  "alloc h w = (length h, h @ [w])"

text \<open>
  An argument of a pipeline is a Wave object or a plain numpy array; \<open>others\<close> is a list
  of such arguments or a single one.
\<close>

datatype pyval = WaveObj ref | Array ndarray

datatype others_arg = OthersList "pyval list" | OthersSingle pyval

text \<open>
  The services of the untwist library, which is not part of the repository: the STFT
  and ISTFT processors (configured with window, transform length and hop size; the
  inverse also receives the sample rate that the spectrogram carries), the loudness
  meter behind the \<open>loudness\<close> property, the gain that the property's setter derives
  from the measured and the requested loudness, the permutation drawn by numpy's global
  generator, and the sample rate that the \<open>Wave\<close> constructor gives an object built with
  a possibly absent \<open>sample_rate\<close> argument.
\<close>

record 'g services =
  stft_process :: "string \<Rightarrow> nat \<Rightarrow> nat \<Rightarrow> wave \<Rightarrow> spectrogram"
  istft_process :: "string \<Rightarrow> nat \<Rightarrow> nat \<Rightarrow> nat \<Rightarrow> spectrogram \<Rightarrow> wave"
  measure :: "wave \<Rightarrow> real"
  loudness_gain :: "real \<Rightarrow> real \<Rightarrow> real"
  permutation :: "'g \<Rightarrow> nat \<Rightarrow> nat list \<times> 'g"
  wave_rate :: "nat option \<Rightarrow> nat"

text \<open>\<open>Wave(array, sample_rate)\<close>.\<close>

definition wave_new :: "'g services \<Rightarrow> ndarray \<Rightarrow> nat option \<Rightarrow> wave" where
  "wave_new env a sr = \<lparr>samples = a, sample_rate = wave_rate env sr\<rparr>"

text \<open>
  Modelled from the spec: the setter of the \<open>loudness\<close> property of untwist's \<open>Wave\<close>,
  which is not part of the repository. The spec gives it as
  \<open>gain = f(measure(buffer), target)\<close> and \<open>buffer * gain\<close>.
\<close>

definition set_loudness :: "'g services \<Rightarrow> real \<Rightarrow> wave \<Rightarrow> wave" where
  "set_loudness env target_loudness w =
     w\<lparr>samples := scale (loudness_gain env (measure env w) target_loudness) (samples w)\<rparr>"

text \<open>
  The statement \<open>obj.loudness = value\<close>: an assignment to a property of the object
  \<open>obj\<close>, so the object stored at that reference is the one that is rescaled.
\<close>

definition assign_loudness :: "'g services \<Rightarrow> ref \<Rightarrow> real \<Rightarrow> heap \<Rightarrow> heap" where
  "assign_loudness env r v h = h[r := set_loudness env v (h ! r)]"

section \<open>numpy addition and Python's sum\<close>

text \<open>
  numpy's broadcasting on one axis: two lengths are compatible when they are equal or
  one of them is 1, and the operand of length 1 is repeated.
\<close>

definition broadcastable :: "nat \<Rightarrow> nat \<Rightarrow> bool" where
  "broadcastable m n = (m = n \<or> m = 1 \<or> n = 1)"

definition broadcast2 :: "('a \<Rightarrow> 'b \<Rightarrow> 'c) \<Rightarrow> 'a list \<Rightarrow> 'b list \<Rightarrow> 'c list" where
  "broadcast2 f xs ys =
     (if length xs = length ys then map2 f xs ys
      else if length xs = 1 then map (f (hd xs)) ys
      else map (\<lambda>x. f x (hd ys)) xs)"

definition num_channels :: "ndarray \<Rightarrow> nat" where
  "num_channels a = (case a of [] \<Rightarrow> 0 | fr # _ \<Rightarrow> length fr)"

definition np_add :: "ndarray \<Rightarrow> ndarray \<Rightarrow> error + ndarray" where
  "np_add a b =
     (if broadcastable (length a) (length b) \<and> broadcastable (num_channels a) (num_channels b)
      then Inr (broadcast2 (broadcast2 (+)) a b)
      else Inl ValueError)"

text \<open>
  An operand of \<open>+\<close>: the array and, when the operand is a Wave, its sample rate. The
  sum of two operands is a Wave as soon as one of them is, and takes its sample rate
  from the first operand that is a Wave. numpy compares shapes only.
\<close>

type_synonym operand = "ndarray \<times> nat option"

definition operand_of :: "heap \<Rightarrow> pyval \<Rightarrow> operand" where
  "operand_of h v =
     (case v of
        WaveObj r \<Rightarrow> (samples (h ! r), Some (sample_rate (h ! r)))
      | Array a \<Rightarrow> (a, None))"

definition wave_operand :: "wave \<Rightarrow> operand" where
  "wave_operand w = (samples w, Some (sample_rate w))"

definition operand_add :: "operand \<Rightarrow> operand \<Rightarrow> error + operand" where
  "operand_add x y =
     (case np_add (fst x) (fst y) of
        Inl e \<Rightarrow> Inl e
      | Inr s \<Rightarrow> Inr (s, (case snd x of Some r \<Rightarrow> Some r | None \<Rightarrow> snd y)))"

text \<open>
  Python's \<open>sum\<close> starts from the integer 0: \<open>0 + x\<close> is a new array with the samples of
  \<open>x\<close>, and every further element is added on the right. The sum of no element is the
  integer 0, which is no array.
\<close>

fun sum_from :: "operand \<Rightarrow> operand list \<Rightarrow> error + operand" where
  "sum_from acc [] = Inr acc"
| "sum_from acc (x # xs) =
     (case operand_add acc x of
        Inl e \<Rightarrow> Inl e
      | Inr acc' \<Rightarrow> sum_from acc' xs)"

definition py_sum :: "operand list \<Rightarrow> error + operand" where
  "py_sum xs =
     (case xs of
        [] \<Rightarrow> Inl AttributeError
      | x # rest \<Rightarrow> sum_from (map (map (\<lambda>s. 0 + s)) (fst x), snd x) rest)"

text \<open>
  The result of an expression becomes an object of the store; a result that is a plain
  array has no \<open>loudness\<close> and no \<open>num_frames\<close>, which the pipelines ask of it next.
\<close>

definition alloc_operand :: "heap \<Rightarrow> operand \<Rightarrow> error + (ref \<times> heap)" where
  "alloc_operand h x =
     (case snd x of
        None \<Rightarrow> Inl AttributeError
      | Some r \<Rightarrow> Inr (alloc h \<lparr>samples = fst x, sample_rate = r\<rparr>))"

section \<open>utilities.target_accompaniment and utilities.stft_istft\<close>

definition is_wave :: "pyval \<Rightarrow> bool" where
  "is_wave v = (case v of WaveObj _ \<Rightarrow> True | Array _ \<Rightarrow> False)"

text \<open>
  \<open>if not isinstance(x, Wave): x = Wave(x, sample_rate)\<close>: a Wave object is used as it
  is, an array becomes a new object.
\<close>

definition as_wave :: "'g services \<Rightarrow> heap \<Rightarrow> pyval \<Rightarrow> nat option \<Rightarrow> ref \<times> heap" where
  "as_wave env h v sr =
     (case v of
        WaveObj r \<Rightarrow> (r, h)
      | Array a \<Rightarrow> alloc h (wave_new env a sr))"

text \<open>
  The result is the target's reference, the accompaniment's reference and the store.
  With a list, \<open>others[0]\<close> raises IndexError on the empty list; when the first element is
  no Wave every element is passed to the constructor; the accompaniment is the sum,
  a new object. With a single object the accompaniment is that very object.
\<close>

definition target_accompaniment ::
  "'g services \<Rightarrow> heap \<Rightarrow> pyval \<Rightarrow> others_arg \<Rightarrow> nat option
     \<Rightarrow> error + (ref \<times> ref \<times> heap)" where
  "target_accompaniment env h target others sr =
     (case (case others of
              OthersList os \<Rightarrow>
                (case os of
                   [] \<Rightarrow> Inl IndexError
                 | first # _ \<Rightarrow>
                     (let operands =
                            (if \<not> is_wave first
                             then map (\<lambda>v. wave_operand (wave_new env (fst (operand_of h v)) sr)) os
                             else map (operand_of h) os)
                      in case py_sum operands of
                           Inl e \<Rightarrow> Inl e
                         | Inr accompaniment \<Rightarrow> alloc_operand h accompaniment))
            | OthersSingle v \<Rightarrow> Inr (as_wave env h v sr)) of
        Inl e \<Rightarrow> Inl e
      | Inr (a, h1) \<Rightarrow>
          (case as_wave env h1 target sr of (t, h2) \<Rightarrow> Inr (t, a, h2)))"

text \<open>
  \<open>stft_istft\<close> configures both processors with the same window, transform length and
  the hop size \<open>num_points // 2\<close>.
\<close>

definition stft_istft ::
  "'g services \<Rightarrow> nat \<Rightarrow> string
     \<Rightarrow> (wave \<Rightarrow> spectrogram) \<times> (nat \<Rightarrow> spectrogram \<Rightarrow> wave)" where
  "stft_istft env num_points window =
     (stft_process env window num_points (num_points div 2),
      istft_process env window num_points (num_points div 2))"

section \<open>The pipelines of anchors.py\<close>

text \<open>
  Every pipeline takes the store and returns the reference of the anchor with the new
  store; the pipelines that sample also thread the generator's state. \<open>target.loudness\<close>
  on the right of an assignment is the meter's reading of the object as it is then.
\<close>

definition distorted_target ::
  "'g services \<Rightarrow> heap \<Rightarrow> 'g \<Rightarrow> pyval \<Rightarrow> pyfloat option \<Rightarrow> real option \<Rightarrow> nat \<Rightarrow> string
     \<Rightarrow> nat option \<Rightarrow> error + (ref \<times> heap \<times> 'g)" where
  "distorted_target env h g target distortion_factor lowpass_cutoff num_points window_type sr =
     (case as_wave env h target sr of (t, h1) \<Rightarrow>
      (case stft_istft env num_points window_type of (stft, istft) \<Rightarrow>
       (let x_fft = stft (h1 ! t)
        in case frame_dropout (permutation env) g distortion_factor x_fft of
             Inl e \<Rightarrow> Inl e
           | Inr (x1, g1) \<Rightarrow>
               (case lowpass lowpass_cutoff num_points (sample_rate (h1 ! t)) x1 of
                  Inl e \<Rightarrow> Inl e
                | Inr x2 \<Rightarrow>
                    (let out = istft (sample_rate (h1 ! t)) x2
                     in case alloc h1 (out\<lparr>samples :=
                                 take (length (samples (h1 ! t))) (samples out)\<rparr>) of
                          (a, h2) \<Rightarrow>
                            Inr (a, assign_loudness env a (measure env (h2 ! t)) h2, g1))))))"

definition musical_noise ::
  "'g services \<Rightarrow> heap \<Rightarrow> 'g \<Rightarrow> pyval \<Rightarrow> pyfloat option \<Rightarrow> real option \<Rightarrow> nat \<Rightarrow> string
     \<Rightarrow> nat option \<Rightarrow> error + (ref \<times> heap \<times> 'g)" where
  "musical_noise env h g target distortion_factor lowpass_cutoff num_points window_type sr =
     (case as_wave env h target sr of (t, h1) \<Rightarrow>
      (case stft_istft env num_points window_type of (stft, istft) \<Rightarrow>
       (let x_fft = stft (h1 ! t)
        in case bin_dropout (permutation env) g distortion_factor x_fft of
             Inl e \<Rightarrow> Inl e
           | Inr (x1, g1) \<Rightarrow>
               (case lowpass lowpass_cutoff num_points (sample_rate (h1 ! t)) x1 of
                  Inl e \<Rightarrow> Inl e
                | Inr x2 \<Rightarrow>
                    (let artefacts = istft (sample_rate (h1 ! t)) x2
                     in case alloc h1 (artefacts\<lparr>samples :=
                                 take (length (samples (h1 ! t))) (samples artefacts)\<rparr>) of
                          (a, h2) \<Rightarrow> Inr (a, h2, g1))))))"

text \<open>
  \<open>artefacts\<close> does not convert its target: \<open>target.loudness\<close> of a plain array raises
  AttributeError after the musical noise has been computed.
\<close>

definition artefacts ::
  "'g services \<Rightarrow> heap \<Rightarrow> 'g \<Rightarrow> pyval \<Rightarrow> pyfloat option \<Rightarrow> real option \<Rightarrow> nat \<Rightarrow> string
     \<Rightarrow> nat option \<Rightarrow> error + (ref \<times> heap \<times> 'g)" where
  "artefacts env h g target distortion_factor lowpass_cutoff num_points window_type sr =
     (case musical_noise env h g target distortion_factor lowpass_cutoff num_points
             window_type sr of
        Inl e \<Rightarrow> Inl e
      | Inr (n, h1, g1) \<Rightarrow>
          (case target of
             Array _ \<Rightarrow> Inl AttributeError
           | WaveObj t \<Rightarrow>
               (let h2 = assign_loudness env n (measure env (h1 ! t)) h1
                in case operand_add (wave_operand (h2 ! n)) (wave_operand (h2 ! t)) of
                     Inl e \<Rightarrow> Inl e
                   | Inr s \<Rightarrow>
                       (case alloc_operand h2 s of
                          Inl e \<Rightarrow> Inl e
                        | Inr (a, h3) \<Rightarrow>
                            Inr (a, assign_loudness env a (measure env (h3 ! t)) h3, g1)))))"

definition interference ::
  "'g services \<Rightarrow> heap \<Rightarrow> pyval \<Rightarrow> others_arg \<Rightarrow> real option \<Rightarrow> nat option
     \<Rightarrow> error + (ref \<times> heap)" where
  "interference env h target others relative_loudness sr =
     (case target_accompaniment env h target others sr of
        Inl e \<Rightarrow> Inl e
      | Inr (t, accompaniment, h1) \<Rightarrow>
          (let h2 = (case relative_loudness of
                       None \<Rightarrow> h1
                     | Some rl \<Rightarrow>
                         assign_loudness env accompaniment (measure env (h1 ! t) + rl) h1)
           in case operand_add (wave_operand (h2 ! t)) (wave_operand (h2 ! accompaniment)) of
                Inl e \<Rightarrow> Inl e
              | Inr s \<Rightarrow>
                  (case alloc_operand h2 s of
                     Inl e \<Rightarrow> Inl e
                   | Inr (a, h3) \<Rightarrow>
                       Inr (a, assign_loudness env a (measure env (h3 ! t)) h3))))"

text \<open>\<open>sum(signals_to_sum)[:target.num_frames]\<close>, then the final loudness assignment.\<close>

definition sum_truncate_match ::
  "'g services \<Rightarrow> heap \<Rightarrow> ref \<Rightarrow> ref list \<Rightarrow> error + (ref \<times> heap)" where
  "sum_truncate_match env h t signals_to_sum =
     (case py_sum (map (\<lambda>r. wave_operand (h ! r)) signals_to_sum) of
        Inl e \<Rightarrow> Inl e
      | Inr s \<Rightarrow>
          (case alloc_operand h (take (length (samples (h ! t))) (fst s), snd s) of
             Inl e \<Rightarrow> Inl e
           | Inr (a, h') \<Rightarrow> Inr (a, assign_loudness env a (measure env (h' ! t)) h')))"

definition overall_quality ::
  "'g services \<Rightarrow> heap \<Rightarrow> 'g \<Rightarrow> pyval \<Rightarrow> others_arg \<Rightarrow> pyfloat option
     \<Rightarrow> pyfloat option \<Rightarrow> real option \<Rightarrow> real option \<Rightarrow> real \<Rightarrow> nat \<Rightarrow> string \<Rightarrow> nat option
     \<Rightarrow> error + (ref \<times> heap \<times> 'g)" where
  "overall_quality env h g target others distortion_factor_target distortion_factor_noise
       lowpass_cutoff_target lowpass_cutoff_noise relative_loudness num_points window_type sr =
     (case target_accompaniment env h target others sr of
        Inl e \<Rightarrow> Inl e
      | Inr (t, accompaniment, h1) \<Rightarrow>
          (case distorted_target env h1 g (WaveObj t) distortion_factor_target
                  lowpass_cutoff_target num_points window_type sr of
             Inl e \<Rightarrow> Inl e
           | Inr (d, h2, g1) \<Rightarrow>
               (case musical_noise env h2 g1 (WaveObj t) distortion_factor_noise
                       lowpass_cutoff_noise num_points window_type sr of
                  Inl e \<Rightarrow> Inl e
                | Inr (m, h3, g2) \<Rightarrow>
                    (let signals_to_sum = [d, m, accompaniment];
                         h4 = fold (\<lambda>signal. assign_loudness env signal (-23))
                                signals_to_sum h3;
                         h5 = assign_loudness env (signals_to_sum ! 2)
                                (-23 + relative_loudness) h4
                     in case sum_truncate_match env h5 t signals_to_sum of
                          Inl e \<Rightarrow> Inl e
                        | Inr (a, h6) \<Rightarrow> Inr (a, h6, g2)))))"

definition target_sound_quality ::
  "'g services \<Rightarrow> heap \<Rightarrow> 'g \<Rightarrow> pyval \<Rightarrow> pyfloat option \<Rightarrow> pyfloat option
     \<Rightarrow> real option \<Rightarrow> real option \<Rightarrow> nat \<Rightarrow> string \<Rightarrow> nat option
     \<Rightarrow> error + (ref \<times> heap \<times> 'g)" where
  "target_sound_quality env h g target distortion_factor_target distortion_factor_noise
       lowpass_cutoff_target lowpass_cutoff_noise num_points window_type sr =
     (case as_wave env h target sr of (t, h1) \<Rightarrow>
      (case distorted_target env h1 g (WaveObj t) distortion_factor_target
              lowpass_cutoff_target num_points window_type sr of
         Inl e \<Rightarrow> Inl e
       | Inr (d, h2, g1) \<Rightarrow>
           (case musical_noise env h2 g1 (WaveObj t) distortion_factor_noise
                   lowpass_cutoff_noise num_points window_type sr of
              Inl e \<Rightarrow> Inl e
            | Inr (m, h3, g2) \<Rightarrow>
                (let signals_to_sum = [d, m];
                     h4 = fold (\<lambda>signal. assign_loudness env signal (-23))
                            signals_to_sum h3
                 in case sum_truncate_match env h4 t signals_to_sum of
                      Inl e \<Rightarrow> Inl e
                    | Inr (a, h5) \<Rightarrow> Inr (a, h5, g2)))))"

section \<open>A sample generator\<close>

text \<open>
  A deterministic stand-in for numpy's generator, used in the worked examples: the state
  counts the draws, and every draw is the reversed range.
\<close>

definition reversing_generator :: "nat \<Rightarrow> nat \<Rightarrow> nat list \<times> nat" where
  "reversing_generator g n = (rev [0..<n], Suc g)"

text \<open>
  Sample services for the worked examples. The transform has one bin whose frames are
  the samples, followed by one frame of padding; the inverse reads the frames back. The
  meter reads the sum of the sample magnitudes, and the gain is the ratio of the
  requested to the measured reading.
\<close>

definition sample_services :: "nat services" where
  "sample_services =
     \<lparr>stft_process = (\<lambda>window num_points hop w.
          [map (map complex_of_real) (samples w) @ [replicate (num_channels (samples w)) 0]]),
      istft_process = (\<lambda>window num_points hop rate x_fft.
          \<lparr>samples = map (map Re) (case x_fft of [] \<Rightarrow> [] | bin # _ \<Rightarrow> bin),
           sample_rate = rate\<rparr>),
      measure = (\<lambda>w. sum_list (map abs (concat (samples w)))),
      loudness_gain = (\<lambda>measured requested.
          if measured = 0 then 1 else requested / measured),
      permutation = reversing_generator,
      wave_rate = (\<lambda>sr. case sr of None \<Rightarrow> 44100 | Some r \<Rightarrow> r)\<rparr>"

section \<open>Properties of the clip guard\<close>

lemma array_peak_Max:
  assumes "concat audio \<noteq> []"
  shows "array_peak audio = Inr (Max (abs ` set (concat audio)))"
proof -
  from assms obtain s ss where c: "concat audio = s # ss"
    by (cases "concat audio") auto
  have "Max (abs ` set (s # ss)) = Max (set (\<bar>s\<bar> # map abs ss))"
    by simp
  also have "\<dots> = fold max (map abs ss) \<bar>s\<bar>"
    by (rule Max.set_eq_fold)
  finally show ?thesis
    by (simp add: array_peak_def c)
qed

lemma scan_peaks_Max:
  assumes "\<forall>a \<in> set arrays. concat a \<noteq> []"
  shows "scan_peaks m arrays = Inr (Max (insert m (abs ` set (all_samples arrays))))"
  using assms
proof (induction arrays arbitrary: m)
  case Nil
  show ?case by (simp add: all_samples_def)
next
  case (Cons a arrays)
  let ?A = "abs ` set (concat a)"
  let ?B = "abs ` set (all_samples arrays)"
  have ne: "concat a \<noteq> []" and rest: "\<forall>b \<in> set arrays. concat b \<noteq> []"
    using Cons.prems by simp_all
  have finA: "finite ?A" and neA: "?A \<noteq> {}"
    using ne by simp_all
  have step: "(if Max ?A > m then Max ?A else m) = Max (insert m ?A)"
    using finA neA by (simp add: max_def)
  have "scan_peaks m (a # arrays)
          = scan_peaks (if Max ?A > m then Max ?A else m) arrays"
    by (simp only: scan_peaks.simps array_peak_Max [OF ne] sum.case)
  also have "\<dots> = scan_peaks (Max (insert m ?A)) arrays"
    by (simp only: step)
  also have "\<dots> = Inr (Max (insert (Max (insert m ?A)) ?B))"
    by (rule Cons.IH [OF rest])
  also have "Max (insert (Max (insert m ?A)) ?B) = Max (insert m ?A \<union> ?B)"
  proof -
    have "Max (insert m ?A \<union> ?B) = Max (insert (Max (insert m ?A)) ?B)"
    proof (cases "?B = {}")
      case True
      then show ?thesis by simp
    next
      case False
      have "Max (insert m ?A \<union> ?B) = max (Max (insert m ?A)) (Max ?B)"
        using False by (intro Max_Un) simp_all
      also have "\<dots> = Max (insert (Max (insert m ?A)) ?B)"
        using False by simp
      finally show ?thesis .
    qed
    then show ?thesis by simp
  qed
  also have "insert m ?A \<union> ?B = insert m (abs ` set (all_samples (a # arrays)))"
    by (simp add: all_samples_def image_Un Un_assoc)
  finally show ?case .
qed

lemma scan_peaks_ge_start:
  "scan_peaks m arrays = Inr p \<Longrightarrow> m \<le> p"
proof (induction arrays arbitrary: m)
  case Nil
  then show ?case by simp
next
  case (Cons a arrays)
  then show ?case
    by (fastforce split: sum.splits if_splits)
qed

text \<open>
  The accumulator starts at 1 and only grows, so the test \<open>max_peak >= 1\<close> always
  succeeds: the branch returning the list as it is cannot be reached.
\<close>

lemma ensure_audio_doesnt_clip_always_scales:
  "ensure_audio_doesnt_clip arrays \<noteq> Inr (False, out)"
  by (auto simp: ensure_audio_doesnt_clip_def split: sum.splits
      dest: scan_peaks_ge_start)

text \<open>
  C1. A collection whose peak is below 1.0 should come back unchanged. On the single
  buffer holding the one sample 0.5 the guard prints the warning and returns the sample
  scaled by 0.999.
\<close>

theorem clip_guard_quiet_buffer_is_scaled:
  "ensure_audio_doesnt_clip [[[1/2]]] = Inr (True, [[[999/2000]]])
   \<and> collection_peak [[[1/2]]] < 1"
  by (simp add: ensure_audio_doesnt_clip_def array_peak_def scale_def
      collection_peak_def all_samples_def)

text \<open>
  C2. When the peak \<open>p\<close> of a collection of non-empty buffers is at least 1.0, every
  buffer is multiplied by the one gain \<open>0.999 / p\<close>, the warning is printed, and no
  sample of the result exceeds 0.999 in magnitude.
\<close>

theorem clip_guard_attenuates:
  assumes "arrays \<noteq> []"
    and "\<forall>a \<in> set arrays. concat a \<noteq> []"
    and "collection_peak arrays \<ge> 1"
  shows "ensure_audio_doesnt_clip arrays
           = Inr (True, map (scale (0.999 / collection_peak arrays)) arrays)
         \<and> (\<forall>s \<in> set (all_samples (map (scale (0.999 / collection_peak arrays)) arrays)).
              \<bar>s\<bar> \<le> 0.999)"
proof -
  let ?S = "abs ` set (all_samples arrays)"
  let ?p = "collection_peak arrays"
  obtain a where a: "a \<in> set arrays"
    using assms(1) by (cases arrays) auto
  then have "concat a \<noteq> []" using assms(2) by blast
  then have "set (concat a) \<noteq> {}" by simp
  then have neS: "?S \<noteq> {}"
    using a by (auto simp: all_samples_def)
  have finS: "finite ?S" by simp
  have "Max (insert 1 ?S) = max 1 (Max ?S)"
    using finS neS by simp
  also have "\<dots> = ?p"
    using assms(3) by (simp add: collection_peak_def)
  finally have scan: "scan_peaks 1 arrays = Inr ?p"
    using scan_peaks_Max [OF assms(2), of 1] by simp
  have first: "ensure_audio_doesnt_clip arrays = Inr (True, map (scale (0.999 / ?p)) arrays)"
    using assms(3) by (simp add: ensure_audio_doesnt_clip_def scan)
  have bound: "\<bar>s\<bar> \<le> 0.999"
    if "s \<in> set (all_samples (map (scale (0.999 / ?p)) arrays))" for s
  proof -
    from that obtain t where t: "t \<in> set (all_samples arrays)" and s: "s = t * (0.999 / ?p)"
      by (auto simp: all_samples_def scale_def)
    have "\<bar>t\<bar> \<le> ?p"
      unfolding collection_peak_def using t by (intro Max_ge) simp_all
    moreover have "0 < ?p" using assms(3) by simp
    ultimately have "\<bar>t\<bar> / ?p \<le> 1" by (simp add: divide_le_eq)
    then have "\<bar>t\<bar> / ?p * 0.999 \<le> 1 * 0.999"
      by (intro mult_right_mono) simp_all
    moreover have "\<bar>s\<bar> = \<bar>t\<bar> / ?p * 0.999"
      using \<open>0 < ?p\<close> by (simp add: s abs_mult)
    ultimately show ?thesis by simp
  qed
  from first bound show ?thesis by blast
qed

theorem clip_guard_attenuates_witness:
  "ensure_audio_doesnt_clip [[[2, -1]], [[1/2, 1]]]
     = Inr (True, [[[999/1000, -(999/2000)]], [[999/4000, 999/2000]]])"
proof -
  have p: "collection_peak [[[2, -1]], [[1/2, 1]]] = 2"
    by (simp add: collection_peak_def all_samples_def)
  have "ensure_audio_doesnt_clip [[[2, -1]], [[1/2, 1]]]
          = Inr (True, map (scale (0.999 / collection_peak [[[2, -1]], [[1/2, 1]]]))
                         [[[2, -1]], [[1/2, 1]]])"
    using clip_guard_attenuates [of "[[[2, -1]], [[1/2, 1]]]"] by (simp add: p)
  then show ?thesis
    by (simp add: p scale_def)
qed

section \<open>Properties of the degradation steps\<close>

lemma zero_frames_nth:
  assumes "b < length X" and "t < length (X ! b)"
  shows "zero_frames idx X ! b ! t
           = (if t \<in> set idx then map (\<lambda>_. 0) (X ! b ! t) else X ! b ! t)"
  using assms by (simp add: zero_frames_def nth_enumerate_eq)

lemma binade_eqI:
  assumes "2 powr of_int k \<le> \<bar>x\<bar>" and "\<bar>x\<bar> < 2 powr of_int (k + 1)"
  shows "binade x = k"
proof -
  have "0 < \<bar>x\<bar>" using assms(1) by (smt (verit) powr_gt_zero)
  then show ?thesis
    unfolding binade_def using assms by (simp add: floor_log_eq_powr_iff)
qed

lemma round_half_even_bounds: "\<lfloor>y\<rfloor> \<le> round_half_even y \<and> round_half_even y \<le> \<lfloor>y\<rfloor> + 1"
  by (simp add: round_half_even_def)

lemma round_half_even_int [simp]: "round_half_even (of_int k) = k"
  by (simp add: round_half_even_def)

lemma round_half_even_le: "y \<le> of_int k \<Longrightarrow> round_half_even y \<le> k"
proof (cases "y = of_int k")
  case True
  then show ?thesis by simp
next
  case False
  assume "y \<le> of_int k"
  with False have "y < of_int k" by simp
  then have "\<lfloor>y\<rfloor> < k" by (simp add: floor_less_iff)
  then show ?thesis using round_half_even_bounds [of y] by linarith
qed

lemma round_half_even_ge: "of_int k \<le> y \<Longrightarrow> k \<le> round_half_even y"
proof -
  assume "of_int k \<le> y"
  then have "k \<le> \<lfloor>y\<rfloor>" by (simp add: le_floor_iff)
  then show ?thesis using round_half_even_bounds [of y] by linarith
qed

lemma ulp_pos [simp]: "0 < ulp x"
  by (simp add: ulp_def)

lemma round_double_grid:
  assumes "x \<noteq> 0"
    and lo: "ulp x * of_int a \<le> x" and hi: "x \<le> ulp x * of_int b"
    and range: "- (2 powr 1024) < ulp x * of_int a" "ulp x * of_int b < 2 powr 1024"
  shows "\<exists>p. round_double x = Finite p \<and> ulp x * of_int a \<le> p \<and> p \<le> ulp x * of_int b"
proof -
  let ?u = "ulp x"
  let ?k = "round_half_even (x / ?u)"
  have "of_int a \<le> x / ?u" using lo by (simp add: le_divide_eq mult.commute)
  then have ka: "a \<le> ?k" by (rule round_half_even_ge)
  have "x / ?u \<le> of_int b" using hi by (simp add: divide_le_eq mult.commute)
  then have kb: "?k \<le> b" by (rule round_half_even_le)
  have 1: "?u * of_int a \<le> ?u * of_int ?k" using ka by simp
  have 2: "?u * of_int ?k \<le> ?u * of_int b" using kb by simp
  have "\<bar>?u * of_int ?k\<bar> < 2 powr 1024" using 1 2 range by linarith
  then have "round_double x = Finite (?u * of_int ?k)"
    using assms(1) by (simp add: round_double_def Let_def)
  with 1 2 show ?thesis by blast
qed

lemma binade_le_52:
  assumes "0 < x" and "x < 2 ^ 53"
  shows "binade x \<le> 52"
proof -
  have "log 2 x < 53"
    using assms by (simp add: log_less_iff powr_numeral)
  then have "\<lfloor>log 2 x\<rfloor> < 53" by (simp add: floor_less_iff)
  then show ?thesis using assms(1) by (simp add: binade_def)
qed

lemma ulp_inverse_nat:
  assumes "0 < x" and "x < 2 ^ 53"
  shows "\<exists>N::nat. ulp x * real N = 1"
proof -
  define j where "j = nat (52 - max (binade x) (-1022))"
  have "max (binade x) (-1022) \<le> 52" using binade_le_52 [OF assms] by simp
  then have e: "of_int (max (binade x) (-1022) - 52) = - real j"
    by (simp add: j_def)
  have "ulp x = 2 powr (- real j)" unfolding ulp_def e ..
  also have "\<dots> = 1 / 2 ^ j" by (simp add: powr_minus powr_realpow field_simps)
  finally have "ulp x * real (2 ^ j) = 1" by simp
  then show ?thesis by blast
qed

lemma round_double_within:
  assumes "0 < x" and "x \<le> real n" and "n < 2 ^ 53"
  shows "\<exists>p. round_double x = Finite p \<and> 0 \<le> p \<and> p \<le> real n"
proof -
  have xlt: "x < 2 ^ 53"
  proof -
    have "real n < 2 ^ 53" using assms(3) by (metis of_nat_less_iff of_nat_numeral of_nat_power)
    with assms(2) show ?thesis by linarith
  qed
  from ulp_inverse_nat [OF assms(1) xlt] obtain N :: nat where N: "ulp x * real N = 1" by blast
  have nb: "ulp x * of_int (int (n * N)) = real n"
    using N by (simp add: mult.assoc mult.left_commute)
  have "\<exists>p. round_double x = Finite p \<and> ulp x * of_int 0 \<le> p
           \<and> p \<le> ulp x * of_int (int (n * N))"
  proof (rule round_double_grid)
    show "x \<noteq> 0" using assms(1) by simp
    show "ulp x * of_int 0 \<le> x" using assms(1) by simp
    show "x \<le> ulp x * of_int (int (n * N))" unfolding nb by (rule assms(2))
    show "- (2 powr 1024) < ulp x * of_int 0" by simp
    have "real n < 2 ^ 53" using assms(3) by (metis of_nat_less_iff of_nat_numeral of_nat_power)
    also have "(2::real) ^ 53 < 2 powr 1024" by (simp add: powr_numeral)
    finally show "ulp x * of_int (int (n * N)) < 2 powr 1024" unfolding nb .
  qed
  then show ?thesis unfolding nb by simp
qed

lemma round_double_nat:
  assumes "n < 2 ^ 53"
  shows "round_double (real n) = Finite (real n)"
proof (cases "n = 0")
  case True
  then show ?thesis by (simp add: round_double_def)
next
  case False
  then have pos: "0 < real n" by simp
  have xlt: "real n < 2 ^ 53"
    using assms by (metis of_nat_less_iff of_nat_numeral of_nat_power)
  from ulp_inverse_nat [OF pos xlt] obtain N :: nat where N: "ulp (real n) * real N = 1"
    by blast
  have nb: "ulp (real n) * of_int (int (n * N)) = real n"
    using N by (simp add: mult.assoc mult.left_commute)
  have "\<exists>p. round_double (real n) = Finite p \<and> ulp (real n) * of_int (int (n * N)) \<le> p
           \<and> p \<le> ulp (real n) * of_int (int (n * N))"
  proof (rule round_double_grid)
    show "real n \<noteq> 0" using False by simp
    show "ulp (real n) * of_int (int (n * N)) \<le> real n" unfolding nb by simp
    show "real n \<le> ulp (real n) * of_int (int (n * N))" unfolding nb by simp
    have "- (2 powr 1024) < (0::real)" by simp
    with pos show "- (2 powr 1024) < ulp (real n) * of_int (int (n * N))"
      unfolding nb by linarith
    have "(2::real) ^ 53 < 2 powr 1024" by (simp add: powr_numeral)
    with xlt show "ulp (real n) * of_int (int (n * N)) < 2 powr 1024" unfolding nb by linarith
  qed
  then show ?thesis unfolding nb by auto
qed


lemma truncation_nonneg: "0 \<le> r \<Longrightarrow> truncation r = \<lfloor>r\<rfloor>"
  by (simp add: truncation_def)

lemma truncation_negative_iff: "truncation r < 0 \<longleftrightarrow> r \<le> -1"
proof (cases "0 \<le> r")
  case True
  then show ?thesis by (simp add: truncation_def)
next
  case False
  have "\<lceil>r\<rceil> < 0 \<longleftrightarrow> \<lceil>r\<rceil> \<le> -1" by linarith
  also have "\<dots> \<longleftrightarrow> r \<le> -1" by (simp add: ceiling_le_iff)
  finally show ?thesis using False by (simp add: truncation_def)
qed

lemma truncation_exceeds_iff: "int n < truncation r \<longleftrightarrow> real n + 1 \<le> r"
proof (cases "0 \<le> r")
  case True
  have "int n < \<lfloor>r\<rfloor> \<longleftrightarrow> int n + 1 \<le> \<lfloor>r\<rfloor>" by linarith
  also have "\<dots> \<longleftrightarrow> real n + 1 \<le> r" by (simp add: le_floor_iff)
  finally show ?thesis using True by (simp add: truncation_def)
next
  case False
  then have "\<lceil>r\<rceil> \<le> 0" by (simp add: ceiling_le_iff)
  then have "\<not> int n < \<lceil>r\<rceil>" by linarith
  moreover have "\<not> real n + 1 \<le> r" using False by linarith
  ultimately show ?thesis using False by (simp add: truncation_def)
qed

lemma random_choice_cases:
  "random_choice perm g n (truncation r) =
     (if r \<le> -1 \<or> real n + 1 \<le> r then Inl ValueError
      else Inr (take (nat (truncation r)) (fst (perm g n)), snd (perm g n)))"
  by (simp add: random_choice_def truncation_negative_iff truncation_exceeds_iff split: prod.splits)

lemma dropout_count_product:
  assumes "n < 2 ^ 53"
  shows "dropout_count n f = py_int (float_mul (Finite (real n)) f)"
  by (simp add: dropout_count_def int_times_float_def round_double_nat [OF assms])

lemma product_unit_interval:
  assumes "0 \<le> f" and "f < 1" and "n < 2 ^ 53"
  shows "\<exists>p. float_mul (Finite (real n)) (Finite f) = Finite p \<and> 0 \<le> p \<and> p \<le> real n"
proof -
  define x where "x = real n * f"
  have nonneg: "0 \<le> x" using assms(1) by (simp add: x_def)
  have "real n * f \<le> real n * 1"
    using assms(2) by (intro mult_left_mono) simp_all
  then have le: "x \<le> real n" by (simp add: x_def)
  have "\<exists>p. round_double x = Finite p \<and> 0 \<le> p \<and> p \<le> real n"
  proof (cases "x = 0")
    case True
    then show ?thesis by (simp add: round_double_def)
  next
    case False
    with nonneg have "0 < x" by linarith
    from round_double_within [OF this le assms(3)] show ?thesis .
  qed
  then show ?thesis by (simp add: x_def)
qed

lemma product_fifty_fifth:
  assumes "1/5 \<le> f" and "f \<le> 1/5 + 1/2^54"
  shows "\<exists>p. float_mul (Finite (real 50)) (Finite f) = Finite p \<and> \<lfloor>p\<rfloor> = 10"
proof -
  define x where "x = real 50 * f"
  have lo: "10 \<le> x" using assms(1) by (simp add: x_def)
  have hi: "x \<le> 21/2" using assms(2) by (simp add: x_def)
  have b: "binade x = 3"
    by (rule binade_eqI) (use lo hi in \<open>simp_all add: powr_numeral\<close>)
  have u: "ulp x = 1 / 2 ^ 49"
    unfolding ulp_def b by (simp add: powr_minus powr_numeral field_simps)
  have "\<exists>p. round_double x = Finite p \<and> ulp x * of_int (10 * 2 ^ 49) \<le> p
           \<and> p \<le> ulp x * of_int (21 * 2 ^ 48)"
  proof (rule round_double_grid)
    show "x \<noteq> 0" using lo by simp
    show "ulp x * of_int (10 * 2 ^ 49) \<le> x" unfolding u using lo by simp
    show "x \<le> ulp x * of_int (21 * 2 ^ 48)" unfolding u using hi by simp
    show "- (2 powr 1024) < ulp x * of_int (10 * 2 ^ 49)" unfolding u
      by (simp add: powr_numeral)
    show "ulp x * of_int (21 * 2 ^ 48) < 2 powr 1024" unfolding u
      by (simp add: powr_numeral)
  qed
  then obtain p where p: "round_double x = Finite p" "10 \<le> p" "p \<le> 21/2"
    unfolding u by auto
  have "\<lfloor>p\<rfloor> = 10" using p(2,3) by (simp add: floor_eq_iff)
  with p(1) show ?thesis by (simp add: x_def)
qed

text \<open>
  The count is taken of the rounded product: the double written \<open>0.3\<close> is below three
  tenths, ten times it is below 3, and the product rounds to 3.
\<close>

lemma dropout_count_rounds_the_product:
  "dropout_count 10 (Finite (5404319552844595 / 2 ^ 54)) = Inr 3
   \<and> \<lfloor>real 10 * (5404319552844595 / 2 ^ 54)\<rfloor> = 2"
proof -
  define x :: real where "x = real 10 * (5404319552844595 / 2 ^ 54)"
  have xv: "x = 27021597764222975 / 9007199254740992" by (simp add: x_def)
  have b: "binade x = 1"
    by (rule binade_eqI) (simp_all add: xv powr_numeral)
  have u: "ulp x = 1 / 2 ^ 51"
    unfolding ulp_def b by (simp add: powr_minus powr_numeral field_simps)
  have "round_double x = Finite 3"
    unfolding round_double_def u
    by (simp add: xv round_half_even_def powr_numeral)
  then have "float_mul (Finite (real 10)) (Finite (5404319552844595 / 2 ^ 54)) = Finite 3"
    by (simp add: x_def)
  then have "dropout_count 10 (Finite (5404319552844595 / 2 ^ 54)) = Inr 3"
    using dropout_count_product [of 10 "Finite (5404319552844595 / 2 ^ 54)"]
    by (simp add: py_int_def truncation_def)
  moreover have "\<lfloor>real 10 * (5404319552844595 / 2 ^ 54)\<rfloor> = (2::int)" by simp
  ultimately show ?thesis by simp
qed


lemma dropout_count_nat_product:
  assumes "n < 2 ^ 53" and "k < 2 ^ 53" and "real n * f = real k"
  shows "dropout_count n (Finite f) = Inr (int k)"
  by (simp add: dropout_count_product [OF assms(1)] assms(3) round_double_nat [OF assms(2)]
      py_int_def truncation_def)

lemma permutation_length:
  assumes "distinct q" and "set q = {..<n}"
  shows "length q = n"
  using distinct_card [OF assms(1)] assms(2) by simp

lemma frame_dropout_finite:
  assumes n: "num_frames_of X < 2 ^ 53"
    and p: "float_mul (Finite (real (num_frames_of X))) f = Finite p"
    and range: "- 1 < p" "p < real (num_frames_of X) + 1"
    and perm: "distinct (fst (perm g (num_frames_of X)))"
      "set (fst (perm g (num_frames_of X))) = {..<num_frames_of X}"
  shows "\<exists>idx. frame_dropout perm g (Some f) X
                  = Inr (zero_frames idx X, snd (perm g (num_frames_of X)))
           \<and> distinct idx \<and> set idx \<subseteq> {..<num_frames_of X}
           \<and> int (length idx) = truncation p
           \<and> (\<forall>b<length X. \<forall>t<length (X ! b).
                 zero_frames idx X ! b ! t
                   = (if t \<in> set idx then map (\<lambda>_. 0) (X ! b ! t) else X ! b ! t))"
proof -
  let ?n = "num_frames_of X"
  let ?q = "fst (perm g ?n)"
  let ?idx = "take (nat (truncation p)) ?q"
  have k0: "0 \<le> truncation p"
    using range(1) truncation_negative_iff [of p] by linarith
  have kn: "truncation p \<le> int ?n"
    using range(2) truncation_exceeds_iff [of ?n p] by linarith
  have run: "frame_dropout perm g (Some f) X = Inr (zero_frames ?idx X, snd (perm g ?n))"
    using range
    by (simp add: frame_dropout_def dropout_count_product [OF n] p py_int_def
        random_choice_cases)
  have d: "distinct ?idx" using perm(1) by simp
  have s: "set ?idx \<subseteq> {..<?n}"
    using set_take_subset [of "nat (truncation p)" ?q] perm(2) by simp
  have "length ?idx = nat (truncation p)"
    using permutation_length [OF perm] kn k0 by simp
  then have l: "int (length ?idx) = truncation p" using k0 by simp
  have cells: "\<forall>b<length X. \<forall>t<length (X ! b).
      zero_frames ?idx X ! b ! t
        = (if t \<in> set ?idx then map (\<lambda>_. 0) (X ! b ! t) else X ! b ! t)"
    using zero_frames_nth by blast
  from run d s l cells show ?thesis by blast
qed

text \<open>
  C3 (as amended). For a factor in \<open>[0, 1)\<close>, a spectrogram of fewer than \<open>2^53\<close> frames and
  a generator that draws a permutation of the frame indices, frame dropout zeroes every
  bin and channel of exactly \<open>int(p) = floor(p)\<close> distinct frames, where \<open>p\<close> is the float
  product \<open>num_frames * distortion_factor\<close> (truncated, not rounded to the nearest integer),
  and leaves every other frame as it was. With 50 frames and the factor written \<open>0.2\<close>
  (the float just above one fifth) that is 10 frames; with \<open>None\<close> the spectrogram and the
  generator are untouched.
\<close>

theorem frame_dropout_zeroes_floor_count:
  assumes "0 \<le> f" and "f < 1" and "num_frames_of X < 2 ^ 53"
    and "perm g (num_frames_of X) = (q, g')"
    and "distinct q" and "set q = {..<num_frames_of X}"
  shows "(\<exists>p idx. float_mul (Finite (real (num_frames_of X))) (Finite f) = Finite p
            \<and> frame_dropout perm g (Some (Finite f)) X = Inr (zero_frames idx X, g')
            \<and> distinct idx \<and> set idx \<subseteq> {..<num_frames_of X}
            \<and> int (length idx) = \<lfloor>p\<rfloor>
            \<and> (\<forall>b<length X. \<forall>t<length (X ! b).
                  zero_frames idx X ! b ! t
                    = (if t \<in> set idx then map (\<lambda>_. 0) (X ! b ! t) else X ! b ! t))
            \<and> (num_frames_of X = 50 \<and> 1/5 \<le> f \<and> f \<le> 1/5 + 1/2^54 \<longrightarrow> length idx = 10))
         \<and> frame_dropout perm g None X = Inr (X, g)"
proof -
  let ?n = "num_frames_of X"
  from product_unit_interval [OF assms(1-3)] obtain p where
    p: "float_mul (Finite (real ?n)) (Finite f) = Finite p" "0 \<le> p" "p \<le> real ?n"
    by blast
  have perm: "distinct (fst (perm g ?n))" "set (fst (perm g ?n)) = {..<?n}"
    using assms(4-6) by simp_all
  have "- 1 < p" "p < real ?n + 1" using p(2,3) by linarith+
  from frame_dropout_finite [where perm = perm and g = g, OF assms(3) p(1) this perm]
  obtain idx where
    idx: "frame_dropout perm g (Some (Finite f)) X = Inr (zero_frames idx X, g')"
      "distinct idx" "set idx \<subseteq> {..<?n}" "int (length idx) = truncation p"
      "\<forall>b<length X. \<forall>t<length (X ! b).
         zero_frames idx X ! b ! t
           = (if t \<in> set idx then map (\<lambda>_. 0) (X ! b ! t) else X ! b ! t)"
    using assms(4) by auto
  have l: "int (length idx) = \<lfloor>p\<rfloor>"
    using idx(4) p(2) by (simp add: truncation_nonneg)
  have fifty: "?n = 50 \<and> 1/5 \<le> f \<and> f \<le> 1/5 + 1/2^54 \<longrightarrow> length idx = 10"
  proof (intro impI, elim conjE)
    assume n50: "?n = 50" and "1/5 \<le> f" and "f \<le> 1/5 + 1/2^54"
    from product_fifty_fifth [OF this(2,3)] obtain p' where
      "float_mul (Finite (real 50)) (Finite f) = Finite p'" "\<lfloor>p'\<rfloor> = 10" by blast
    with p(1) n50 have "\<lfloor>p\<rfloor> = 10" by simp
    with l show "length idx = 10" by simp
  qed
  have none: "frame_dropout perm g None X = Inr (X, g)"
    by (simp add: frame_dropout_def)
  from p(1) idx(1,2,3,5) l fifty none show ?thesis by blast
qed

theorem frame_dropout_zeroes_floor_count_witness:
  "\<exists>idx. frame_dropout reversing_generator 0 (Some (Finite (1/2))) [[[1], [2], [3], [4]]]
            = Inr (zero_frames idx [[[1], [2], [3], [4]]], 1)
         \<and> distinct idx \<and> set idx \<subseteq> {..<num_frames_of [[[1], [2], [3], [4]]]}"
proof -
  let ?X = "[[[1], [2], [3], [4]]] :: spectrogram"
  have n: "num_frames_of ?X = 4"
    by (simp add: num_frames_of_def spec_shape_def)
  have "(0::real) \<le> 1/2" and "(1/2::real) < 1" and "num_frames_of ?X < 2 ^ 53"
    by (simp_all add: n)
  moreover have "reversing_generator 0 (num_frames_of ?X) = (rev [0..<num_frames_of ?X], 1)"
    by (simp add: reversing_generator_def)
  moreover have "distinct (rev [0..<num_frames_of ?X])"
    and "set (rev [0..<num_frames_of ?X]) = {..<num_frames_of ?X}"
    by (simp_all add: atLeast_upt)
  ultimately show ?thesis
    using frame_dropout_zeroes_floor_count
            [of "1/2" ?X reversing_generator 0 "rev [0..<num_frames_of ?X]" 1]
    by blast
qed

text \<open>
  C3 as stated fails: with 5 frames and factor 0.75 the count is \<open>int(3.75) = 3\<close>, while
  \<open>round(3.75) = 4\<close>.
\<close>

theorem frame_dropout_round_counterexample:
  "frame_dropout reversing_generator 0 (Some (Finite (3/4))) [[[1], [2], [3], [4], [5]]]
     = Inr ([[[1], [2], [0], [0], [0]]], 1)
   \<and> zeroed_frame_indices [[[1], [2], [0], [0], [0]]] = [2, 3, 4]
   \<and> zeroed_frame_indices [[[1], [2], [3], [4], [5]]] = []
   \<and> round (real (num_frames_of [[[1], [2], [3], [4], [5]]]) * (3/4)) = 4"
proof -
  let ?X = "[[[1], [2], [3], [4], [5]]] :: spectrogram"
  have n: "num_frames_of ?X = 5"
    by (simp add: num_frames_of_def spec_shape_def)
  have b: "binade (15/4) = 1"
    by (rule binade_eqI) (simp_all add: powr_numeral)
  have u: "ulp (15/4) = 1 / 2 ^ 51"
    unfolding ulp_def b by (simp add: powr_minus powr_numeral field_simps)
  have rd: "round_double (15/4) = Finite (15/4)"
    unfolding round_double_def u by (simp add: round_half_even_def powr_numeral)
  have dc: "dropout_count 5 (Finite (3/4)) = Inr 3"
    using dropout_count_product [of 5 "Finite (3/4)"] rd
    by (simp add: py_int_def truncation_def)
  have "frame_dropout reversing_generator 0 (Some (Finite (3/4))) ?X
          = Inr ([[[1], [2], [0], [0], [0]]], 1)"
    unfolding frame_dropout_def n
    by (simp add: dc reversing_generator_def random_choice_def zero_frames_def upt_rec
        enumerate_eq_zip)
  moreover have "zeroed_frame_indices [[[1], [2], [0], [0], [0]]] = [2, 3, 4]"
    and "zeroed_frame_indices ?X = []"
    by (simp_all add: zeroed_frame_indices_def num_frames_of_def spec_shape_def upt_rec)
  moreover have "round (real (num_frames_of ?X) * (3/4)) = 4"
    by (simp add: n round_def)
  ultimately show ?thesis by blast
qed


lemma nth_list_update_total:
  "xs[i := x] ! j = (if i = j \<and> i < length xs then x else xs ! j)"
  by (cases "i < length xs") (simp_all add: nth_list_update list_update_beyond not_less)

lemma has_shape_zero_cell:
  assumes "has_shape F T C X"
  shows "has_shape F T C (zero_cell X cell)"
proof (cases cell)
  case (fields b0 t0 c0)
  have len: "length X = F" and rows: "\<And>b. b < F \<Longrightarrow> length (X ! b) = T"
    and cols: "\<And>b t. b < F \<Longrightarrow> t < T \<Longrightarrow> length (X ! b ! t) = C"
    using assms by (auto simp: has_shape_def)
  show ?thesis
    unfolding has_shape_def zero_cell_def fields
    by (auto simp: len rows cols nth_list_update_total)
qed

lemma zero_cell_nth:
  assumes "has_shape F T C X" and "b < F" and "t < T" and "c < C"
  shows "zero_cell X (b0, t0, c0) ! b ! t ! c
           = (if b = b0 \<and> t = t0 \<and> c = c0 then 0 else X ! b ! t ! c)"
proof -
  have len: "length X = F" and rows: "\<And>b. b < F \<Longrightarrow> length (X ! b) = T"
    and cols: "\<And>b t. b < F \<Longrightarrow> t < T \<Longrightarrow> length (X ! b ! t) = C"
    using assms(1) by (auto simp: has_shape_def)
  show ?thesis
    using assms(2-4)
    by (auto simp: zero_cell_def len rows cols nth_list_update_total)
qed

lemma fold_zero_cell_nth:
  assumes "has_shape F T C Y" and "b < F" and "t < T" and "c < C"
  shows "fold (\<lambda>i x. zero_cell x (u i)) idx Y ! b ! t ! c
           = (if (b, t, c) \<in> u ` set idx then 0 else Y ! b ! t ! c)"
  using assms(1)
proof (induction idx arbitrary: Y)
  case Nil
  then show ?case by simp
next
  case (Cons i idx)
  obtain b0 t0 c0 where ui: "u i = (b0, t0, c0)" by (cases "u i")
  have shaped: "has_shape F T C (zero_cell Y (u i))"
    by (rule has_shape_zero_cell [OF Cons.prems])
  have "fold (\<lambda>i x. zero_cell x (u i)) (i # idx) Y ! b ! t ! c
          = (if (b, t, c) \<in> u ` set idx then 0 else zero_cell Y (u i) ! b ! t ! c)"
    using Cons.IH [OF shaped] by simp
  also have "zero_cell Y (u i) ! b ! t ! c
          = (if (b, t, c) = u i then 0 else Y ! b ! t ! c)"
    unfolding ui using zero_cell_nth [OF Cons.prems assms(2-4)] by simp
  finally show ?case by auto
qed

lemma unravel_index_flat:
  assumes "t < T" and "c < C"
  shows "unravel_index (b * T * C + t * C + c) (F, T, C) = (b, t, c)"
proof -
  let ?i = "b * T * C + t * C + c"
  have i: "?i = (b * T + t) * C + c" by (simp add: algebra_simps)
  have m: "?i mod C = c" unfolding i using assms(2) by simp
  have d: "?i div C = b * T + t" unfolding i using assms(2) by simp
  have "?i div (T * C) = ?i div C div T"
    by (simp add: div_mult2_eq mult.commute)
  also have "\<dots> = b" unfolding d using assms(1) by simp
  finally have dd: "?i div (T * C) = b" .
  have dm: "(?i div C) mod T = t" unfolding d using assms(1) by simp
  show ?thesis
    unfolding unravel_index_def by (simp only: prod.case dd dm m)
qed

lemma flat_of_unravel_index:
  assumes "unravel_index i (F, T, C) = (b, t, c)"
  shows "i = b * T * C + t * C + c"
proof -
  have b: "b = i div (T * C)" and t: "t = (i div C) mod T" and c: "c = i mod C"
    using assms by (simp_all add: unravel_index_def)
  have "i div (T * C) = i div C div T"
    by (simp add: div_mult2_eq mult.commute)
  then have "b * T + t = i div C"
    unfolding b t by (simp add: mult.commute)
  then have "(b * T + t) * C + c = i"
    unfolding c by (simp add: mult.commute)
  then show ?thesis by (simp add: algebra_simps)
qed

lemma zero_cells_nth:
  assumes "spec_shape X = (F, T, C)" and "has_shape F T C X"
    and "b < F" and "t < T" and "c < C"
  shows "zero_cells idx X ! b ! t ! c
           = (if b * T * C + t * C + c \<in> set idx then 0 else X ! b ! t ! c)"
proof -
  let ?u = "\<lambda>i. unravel_index i (F, T, C)"
  have "(b, t, c) \<in> ?u ` set idx \<longleftrightarrow> b * T * C + t * C + c \<in> set idx"
  proof
    assume "(b, t, c) \<in> ?u ` set idx"
    then obtain i where "i \<in> set idx" "?u i = (b, t, c)" by auto
    then show "b * T * C + t * C + c \<in> set idx"
      using flat_of_unravel_index [of i F T C b t c] by simp
  next
    assume "b * T * C + t * C + c \<in> set idx"
    then show "(b, t, c) \<in> ?u ` set idx"
      using unravel_index_flat [OF assms(4,5), of b F] by force
  qed
  then show ?thesis
    unfolding zero_cells_def assms(1)
    using fold_zero_cell_nth [OF assms(2-5), of ?u idx] by simp
qed

lemma bin_dropout_finite:
  assumes shape: "spec_shape X = (F, T, C)" "has_shape F T C X"
    and n: "F * T * C < 2 ^ 53"
    and p: "float_mul (Finite (real (F * T * C))) f = Finite p"
    and range: "- 1 < p" "p < real (F * T * C) + 1"
    and perm: "distinct (fst (perm g (F * T * C)))"
      "set (fst (perm g (F * T * C))) = {..<F * T * C}"
  shows "\<exists>idx. bin_dropout perm g (Some f) X = Inr (zero_cells idx X, snd (perm g (F * T * C)))
           \<and> distinct idx \<and> set idx \<subseteq> {..<F * T * C}
           \<and> int (length idx) = truncation p
           \<and> (\<forall>b<F. \<forall>t<T. \<forall>c<C.
                 zero_cells idx X ! b ! t ! c
                   = (if b * T * C + t * C + c \<in> set idx then 0 else X ! b ! t ! c))"
proof -
  let ?n = "F * T * C"
  let ?q = "fst (perm g ?n)"
  let ?idx = "take (nat (truncation p)) ?q"
  have sz: "spec_size X = ?n" by (simp add: spec_size_def shape(1))
  have k0: "0 \<le> truncation p"
    using range(1) truncation_negative_iff [of p] by linarith
  have kn: "truncation p \<le> int ?n"
    using range(2) truncation_exceeds_iff [of ?n p] by linarith
  have dc: "dropout_count ?n f = Inr (truncation p)"
    unfolding dropout_count_product [OF n] p by (simp add: py_int_def)
  have rc: "random_choice perm g ?n (truncation p) = Inr (?idx, snd (perm g ?n))"
    unfolding random_choice_cases using range by simp
  have run: "bin_dropout perm g (Some f) X = Inr (zero_cells ?idx X, snd (perm g ?n))"
    unfolding bin_dropout_def sz by (simp only: option.case dc rc sum.case prod.case)
  have d: "distinct ?idx" using perm(1) by simp
  have s: "set ?idx \<subseteq> {..<?n}"
    using set_take_subset [of "nat (truncation p)" ?q] perm(2) by simp
  have kle: "nat (truncation p) \<le> ?n" using kn by (simp only: nat_le_iff)
  have "length ?idx = nat (truncation p)"
    using permutation_length [OF perm] kle by simp
  then have l: "int (length ?idx) = truncation p" using k0 by simp
  have cells: "\<forall>b<F. \<forall>t<T. \<forall>c<C.
      zero_cells ?idx X ! b ! t ! c
        = (if b * T * C + t * C + c \<in> set ?idx then 0 else X ! b ! t ! c)"
    using zero_cells_nth [OF shape] by blast
  from run d s l cells show ?thesis by blast
qed

lemma frame_dropout_rejects:
  assumes n: "num_frames_of X < 2 ^ 53"
  shows "float_mul (Finite (real (num_frames_of X))) f = NaN
           \<Longrightarrow> frame_dropout perm g (Some f) X = Inl ValueError"
    and "float_mul (Finite (real (num_frames_of X))) f = PosInf
           \<Longrightarrow> frame_dropout perm g (Some f) X = Inl OverflowError"
    and "float_mul (Finite (real (num_frames_of X))) f = NegInf
           \<Longrightarrow> frame_dropout perm g (Some f) X = Inl OverflowError"
    and "float_mul (Finite (real (num_frames_of X))) f = Finite p
           \<Longrightarrow> p \<le> - 1 \<or> real (num_frames_of X) + 1 \<le> p
           \<Longrightarrow> frame_dropout perm g (Some f) X = Inl ValueError"
  by (simp_all add: frame_dropout_def dropout_count_product [OF n] py_int_def
      random_choice_cases)

lemma bin_dropout_rejects:
  assumes n: "spec_size X < 2 ^ 53"
  shows "float_mul (Finite (real (spec_size X))) f = NaN
           \<Longrightarrow> bin_dropout perm g (Some f) X = Inl ValueError"
    and "float_mul (Finite (real (spec_size X))) f = PosInf
           \<Longrightarrow> bin_dropout perm g (Some f) X = Inl OverflowError"
    and "float_mul (Finite (real (spec_size X))) f = NegInf
           \<Longrightarrow> bin_dropout perm g (Some f) X = Inl OverflowError"
    and "float_mul (Finite (real (spec_size X))) f = Finite p
           \<Longrightarrow> p \<le> - 1 \<or> real (spec_size X) + 1 \<le> p
           \<Longrightarrow> bin_dropout perm g (Some f) X = Inl ValueError"
    and "bin_dropout perm g None X = Inl TypeError"
  by (simp_all add: bin_dropout_def dropout_count_product [OF n] py_int_def
      random_choice_cases)


text \<open>
  C5 (as amended). Neither dropout step validates \<open>distortion_factor\<close>. Let \<open>n\<close> be the
  number of frames (frame dropout) or of cells (bin dropout) of a spectrogram of shape
  \<open>(F, T, C)\<close>, below \<open>2^53\<close>, and \<open>p\<close> the float product \<open>n * distortion_factor\<close>. A NaN
  product is rejected by \<open>int()\<close> with ValueError and an infinite one with OverflowError;
  a finite one is rejected by the sampler with ValueError, before anything is drawn and
  without clamping, exactly when \<open>p \<le> -1\<close> or \<open>p \<ge> n + 1\<close>. Every other factor, inside
  \<open>[0, 1)\<close> or not, is accepted: with a generator that draws permutations, exactly
  \<open>int(p)\<close> distinct frames (cells) are zeroed and the others are left as they were. In
  \<open>musical_noise\<close> the factor \<open>None\<close> raises TypeError.
\<close>

theorem dropout_count_rejection:
  assumes shape: "spec_shape X = (F, T, C)" "has_shape F T C X"
    and frames: "T < 2 ^ 53" and cells: "F * T * C < 2 ^ 53"
    and perm: "\<forall>n. distinct (fst (perm g n)) \<and> set (fst (perm g n)) = {..<n}"
  shows "(case float_mul (Finite (real T)) f of
            Finite p \<Rightarrow>
              (if p \<le> - 1 \<or> real T + 1 \<le> p
               then frame_dropout perm g (Some f) X = Inl ValueError
               else \<exists>idx. frame_dropout perm g (Some f) X
                             = Inr (zero_frames idx X, snd (perm g T))
                      \<and> distinct idx \<and> set idx \<subseteq> {..<T}
                      \<and> int (length idx) = truncation p
                      \<and> (\<forall>b<F. \<forall>t<T.
                            zero_frames idx X ! b ! t
                              = (if t \<in> set idx then map (\<lambda>_. 0) (X ! b ! t)
                                 else X ! b ! t)))
          | NaN \<Rightarrow> frame_dropout perm g (Some f) X = Inl ValueError
          | PosInf \<Rightarrow> frame_dropout perm g (Some f) X = Inl OverflowError
          | NegInf \<Rightarrow> frame_dropout perm g (Some f) X = Inl OverflowError)
       \<and> (case float_mul (Finite (real (F * T * C))) f of
            Finite p \<Rightarrow>
              (if p \<le> - 1 \<or> real (F * T * C) + 1 \<le> p
               then bin_dropout perm g (Some f) X = Inl ValueError
               else \<exists>idx. bin_dropout perm g (Some f) X
                             = Inr (zero_cells idx X, snd (perm g (F * T * C)))
                      \<and> distinct idx \<and> set idx \<subseteq> {..<F * T * C}
                      \<and> int (length idx) = truncation p
                      \<and> (\<forall>b<F. \<forall>t<T. \<forall>c<C.
                            zero_cells idx X ! b ! t ! c
                              = (if b * T * C + t * C + c \<in> set idx then 0
                                 else X ! b ! t ! c)))
          | NaN \<Rightarrow> bin_dropout perm g (Some f) X = Inl ValueError
          | PosInf \<Rightarrow> bin_dropout perm g (Some f) X = Inl OverflowError
          | NegInf \<Rightarrow> bin_dropout perm g (Some f) X = Inl OverflowError)
       \<and> bin_dropout perm g None X = Inl TypeError"
proof -
  have nf: "num_frames_of X = T" by (simp add: num_frames_of_def shape(1))
  have sz: "spec_size X = F * T * C" by (simp add: spec_size_def shape(1))
  have len: "length X = F" and rows: "\<And>b. b < F \<Longrightarrow> length (X ! b) = T"
    using shape(2) by (auto simp: has_shape_def)
  have n1: "num_frames_of X < 2 ^ 53" using frames nf by simp
  have n2: "spec_size X < 2 ^ 53" using cells sz by simp
  have pT: "distinct (fst (perm g (num_frames_of X)))"
    "set (fst (perm g (num_frames_of X))) = {..<num_frames_of X}"
    using perm by blast+
  have pS: "distinct (fst (perm g (F * T * C)))"
    "set (fst (perm g (F * T * C))) = {..<F * T * C}"
    using perm by blast+
  have frame_part: "(case float_mul (Finite (real T)) f of
            Finite p \<Rightarrow>
              (if p \<le> - 1 \<or> real T + 1 \<le> p
               then frame_dropout perm g (Some f) X = Inl ValueError
               else \<exists>idx. frame_dropout perm g (Some f) X
                             = Inr (zero_frames idx X, snd (perm g T))
                      \<and> distinct idx \<and> set idx \<subseteq> {..<T}
                      \<and> int (length idx) = truncation p
                      \<and> (\<forall>b<F. \<forall>t<T.
                            zero_frames idx X ! b ! t
                              = (if t \<in> set idx then map (\<lambda>_. 0) (X ! b ! t)
                                 else X ! b ! t)))
          | NaN \<Rightarrow> frame_dropout perm g (Some f) X = Inl ValueError
          | PosInf \<Rightarrow> frame_dropout perm g (Some f) X = Inl OverflowError
          | NegInf \<Rightarrow> frame_dropout perm g (Some f) X = Inl OverflowError)"
  proof (cases "float_mul (Finite (real T)) f")
    case (Finite p)
    then have fm: "float_mul (Finite (real (num_frames_of X))) f = Finite p" by (simp add: nf)
    show ?thesis
    proof (cases "p \<le> - 1 \<or> real T + 1 \<le> p")
      case True
      then have "frame_dropout perm g (Some f) X = Inl ValueError"
        using frame_dropout_rejects(4) [OF n1 fm] by (simp add: nf)
      with Finite True show ?thesis by simp
    next
      case False
      then have "- 1 < p" "p < real (num_frames_of X) + 1" by (simp_all add: nf)
      from frame_dropout_finite [where perm = perm and g = g, OF n1 fm this pT]
      obtain idx where
        "frame_dropout perm g (Some f) X = Inr (zero_frames idx X, snd (perm g T))"
        "distinct idx" "set idx \<subseteq> {..<T}" "int (length idx) = truncation p"
        "\<forall>b<length X. \<forall>t<length (X ! b).
           zero_frames idx X ! b ! t
             = (if t \<in> set idx then map (\<lambda>_. 0) (X ! b ! t) else X ! b ! t)"
        by (auto simp: nf)
      then have "\<exists>idx. frame_dropout perm g (Some f) X
                             = Inr (zero_frames idx X, snd (perm g T))
                      \<and> distinct idx \<and> set idx \<subseteq> {..<T}
                      \<and> int (length idx) = truncation p
                      \<and> (\<forall>b<F. \<forall>t<T.
                            zero_frames idx X ! b ! t
                              = (if t \<in> set idx then map (\<lambda>_. 0) (X ! b ! t)
                                 else X ! b ! t))"
        using len rows by auto
      with Finite False show ?thesis by simp
    qed
  next
    case PosInf
    then show ?thesis using frame_dropout_rejects(2) [OF n1, of f perm g] by (simp add: nf)
  next
    case NegInf
    then show ?thesis using frame_dropout_rejects(3) [OF n1, of f perm g] by (simp add: nf)
  next
    case NaN
    then show ?thesis using frame_dropout_rejects(1) [OF n1, of f perm g] by (simp add: nf)
  qed
  have bin_part: "(case float_mul (Finite (real (F * T * C))) f of
            Finite p \<Rightarrow>
              (if p \<le> - 1 \<or> real (F * T * C) + 1 \<le> p
               then bin_dropout perm g (Some f) X = Inl ValueError
               else \<exists>idx. bin_dropout perm g (Some f) X
                             = Inr (zero_cells idx X, snd (perm g (F * T * C)))
                      \<and> distinct idx \<and> set idx \<subseteq> {..<F * T * C}
                      \<and> int (length idx) = truncation p
                      \<and> (\<forall>b<F. \<forall>t<T. \<forall>c<C.
                            zero_cells idx X ! b ! t ! c
                              = (if b * T * C + t * C + c \<in> set idx then 0
                                 else X ! b ! t ! c)))
          | NaN \<Rightarrow> bin_dropout perm g (Some f) X = Inl ValueError
          | PosInf \<Rightarrow> bin_dropout perm g (Some f) X = Inl OverflowError
          | NegInf \<Rightarrow> bin_dropout perm g (Some f) X = Inl OverflowError)"
  proof (cases "float_mul (Finite (real (F * T * C))) f")
    case (Finite p)
    then have fm: "float_mul (Finite (real (spec_size X))) f = Finite p" unfolding sz .
    show ?thesis
    proof (cases "p \<le> - 1 \<or> real (F * T * C) + 1 \<le> p")
      case True
      then have "p \<le> - 1 \<or> real (spec_size X) + 1 \<le> p" unfolding sz .
      from bin_dropout_rejects(4) [OF n2 fm this]
      have "bin_dropout perm g (Some f) X = Inl ValueError" .
      with Finite True show ?thesis by (simp only: pyfloat.case if_True)
    next
      case False
      then have r: "- 1 < p" "p < real (F * T * C) + 1" by linarith+
      from bin_dropout_finite [where perm = perm and g = g, OF shape cells Finite r pS]
      have "\<exists>idx. bin_dropout perm g (Some f) X
                             = Inr (zero_cells idx X, snd (perm g (F * T * C)))
                      \<and> distinct idx \<and> set idx \<subseteq> {..<F * T * C}
                      \<and> int (length idx) = truncation p
                      \<and> (\<forall>b<F. \<forall>t<T. \<forall>c<C.
                            zero_cells idx X ! b ! t ! c
                              = (if b * T * C + t * C + c \<in> set idx then 0
                                 else X ! b ! t ! c))" .
      with Finite False show ?thesis by (simp only: pyfloat.case if_False)
    qed
  next
    case PosInf
    then have "float_mul (Finite (real (spec_size X))) f = PosInf" unfolding sz .
    from bin_dropout_rejects(2) [OF n2 this] PosInf show ?thesis by (simp only: pyfloat.case)
  next
    case NegInf
    then have "float_mul (Finite (real (spec_size X))) f = NegInf" unfolding sz .
    from bin_dropout_rejects(3) [OF n2 this] NegInf show ?thesis by (simp only: pyfloat.case)
  next
    case NaN
    then have "float_mul (Finite (real (spec_size X))) f = NaN" unfolding sz .
    from bin_dropout_rejects(1) [OF n2 this] NaN show ?thesis by (simp only: pyfloat.case)
  qed
  have "bin_dropout perm g None X = Inl TypeError"
    by (rule bin_dropout_rejects(5) [OF n2])
  with frame_part bin_part show ?thesis by (intro conjI)
qed


lemma reversing_generator_permutes:
  "\<forall>n. distinct (fst (reversing_generator g n)) \<and> set (fst (reversing_generator g n)) = {..<n}"
  by (simp add: reversing_generator_def atLeast_upt)

theorem dropout_count_rejection_witness:
  "(\<exists>idx. frame_dropout reversing_generator 0 (Some (Finite 1)) [[[1], [2], [3], [4]]]
             = Inr (zero_frames idx [[[1], [2], [3], [4]]], snd (reversing_generator 0 4))
          \<and> distinct idx \<and> int (length idx) = 4)
   \<and> frame_dropout reversing_generator 0 (Some (Finite (3/2))) [[[1], [2], [3], [4]]]
       = Inl ValueError
   \<and> frame_dropout reversing_generator 0 (Some NaN) [[[1], [2], [3], [4]]] = Inl ValueError
   \<and> bin_dropout reversing_generator 0 (Some PosInf) [[[1], [2], [3], [4]]] = Inl OverflowError"
proof -
  let ?X = "[[[1], [2], [3], [4]]] :: spectrogram"
  have shape: "spec_shape ?X = (1, 4, 1)" by (simp add: spec_shape_def)
  have shaped: "has_shape 1 4 1 ?X"
    by (auto simp: has_shape_def less_Suc_eq nth_Cons' numeral_eq_Suc)
  have frames: "(4::nat) < 2 ^ 53" and cells: "(1::nat) * 4 * 1 < 2 ^ 53" by simp_all
  note inst = dropout_count_rejection
    [where perm = reversing_generator and g = 0,
     OF shape shaped frames cells reversing_generator_permutes]
  have m1: "float_mul (Finite (real 4)) (Finite 1) = Finite 4"
    using round_double_nat [of 4] by simp
  have m2: "float_mul (Finite (real 4)) (Finite (3/2)) = Finite 6"
    using round_double_nat [of 6] by simp
  have a: "\<exists>idx. frame_dropout reversing_generator 0 (Some (Finite 1)) ?X
             = Inr (zero_frames idx ?X, snd (reversing_generator 0 4))
          \<and> distinct idx \<and> int (length idx) = 4"
    using inst [of "Finite 1", THEN conjunct1] unfolding m1
    by (auto simp: truncation_def)
  have b: "frame_dropout reversing_generator 0 (Some (Finite (3/2))) ?X = Inl ValueError"
    using inst [of "Finite (3/2)", THEN conjunct1] unfolding m2 by simp
  have c: "frame_dropout reversing_generator 0 (Some NaN) ?X = Inl ValueError"
    using inst [of NaN, THEN conjunct1] by simp
  have d: "bin_dropout reversing_generator 0 (Some PosInf) ?X = Inl OverflowError"
    using inst [of PosInf, THEN conjunct2, THEN conjunct1] by simp
  from a b c d show ?thesis by (intro conjI)
qed

text \<open>
  C5 as stated fails: the factor 1.0 lies outside \<open>[0, 1)\<close> and is accepted by both steps,
  which then zero the whole spectrogram.
\<close>

theorem dropout_factor_one_counterexample:
  "frame_dropout reversing_generator 0 (Some (Finite 1)) [[[1], [2], [3]]]
     = Inr ([[[0], [0], [0]]], 1)
   \<and> bin_dropout reversing_generator 0 (Some (Finite 1)) [[[1, 2], [3, 4]]]
     = Inr ([[[0, 0], [0, 0]]], 1)"
proof -
  have n3: "num_frames_of [[[1], [2], [3]]] = 3"
    by (simp add: num_frames_of_def spec_shape_def)
  have dc3: "dropout_count 3 (Finite 1) = Inr 3"
    using dropout_count_nat_product [of 3 3 1] by simp
  have a: "frame_dropout reversing_generator 0 (Some (Finite 1)) [[[1], [2], [3]]]
     = Inr ([[[0], [0], [0]]], 1)"
    unfolding frame_dropout_def n3
    by (simp add: dc3 reversing_generator_def random_choice_def zero_frames_def upt_rec
        enumerate_eq_zip)
  have n4: "spec_size [[[1, 2], [3, 4]]] = 4"
    by (simp add: spec_size_def spec_shape_def)
  have dc4: "dropout_count 4 (Finite 1) = Inr 4"
    using dropout_count_nat_product [of 4 4 1] by simp
  have rc: "random_choice reversing_generator 0 4 4 = Inr ([3, 2, 1, 0], 1)"
    by (simp add: random_choice_def reversing_generator_def upt_rec)
  have zc: "zero_cells [3, 2, 1, 0] [[[1, 2], [3, 4]]] = [[[0, 0], [0, 0]]]"
    by code_simp
  have b: "bin_dropout reversing_generator 0 (Some (Finite 1)) [[[1, 2], [3, 4]]]
     = Inr ([[[0, 0], [0, 0]]], 1)"
    unfolding bin_dropout_def n4
    by (simp only: option.case dc4 rc sum.case prod.case zc)
  from a b show ?thesis by simp
qed


lemma zero_bins_from_nth:
  assumes "b < length X"
  shows "zero_bins_from (int k) X ! b = (if k \<le> b then map (map (\<lambda>_. 0)) (X ! b) else X ! b)"
  using assms by (auto simp: zero_bins_from_def slice_start_def nth_append min_def)

text \<open>
  C8. For a cutoff frequency \<open>c \<ge> 0\<close> Hz (and a non-zero sample rate) the lowpass step
  turns the cutoff into the bin index \<open>k = round(c / sample_rate * num_points)\<close> and returns
  a spectrogram of the same number of bins in which every bin from \<open>k\<close> upward is zero in
  every frame and channel and every bin below \<open>k\<close> is as it was; with \<open>None\<close> the
  spectrogram is returned as it is.
\<close>

theorem lowpass_zeroes_upper_bins:
  assumes "0 \<le> c" and "0 < rate"
  shows "(\<exists>k Y. nearest_bin c num_points rate = Inr (int k)
            \<and> int k = round (c / real rate * real num_points)
            \<and> lowpass (Some c) num_points rate X = Inr Y
            \<and> length Y = length X
            \<and> (\<forall>b<length X. Y ! b = (if k \<le> b then map (map (\<lambda>_. 0)) (X ! b) else X ! b)))
         \<and> lowpass None num_points rate X = Inr X"
proof -
  let ?r = "round (c / real rate * real num_points)"
  have "0 \<le> c / real rate * real num_points"
    using assms by simp
  then have "0 \<le> ?r" by (simp add: round_def)
  then obtain k where k: "?r = int k"
    using nonneg_int_cases by blast
  have nb: "nearest_bin c num_points rate = Inr (int k)"
    using assms(2) k by (simp add: nearest_bin_def)
  have lp: "lowpass (Some c) num_points rate X = Inr (zero_bins_from (int k) X)"
    by (simp add: lowpass_def nb)
  have len: "length (zero_bins_from (int k) X) = length X"
    by (simp add: zero_bins_from_def Let_def)
  have "lowpass None num_points rate X = Inr X"
    by (simp add: lowpass_def)
  with nb k lp len zero_bins_from_nth show ?thesis by auto
qed


theorem lowpass_zeroes_upper_bins_witness:
  "lowpass (Some 3500) 8 44100 [[[1, 2]], [[3, 4]], [[5, 6]]]
     = Inr [[[1, 2]], [[0, 0]], [[0, 0]]]
   \<and> lowpass None 8 44100 [[[1, 2]], [[3, 4]], [[5, 6]]] = Inr [[[1, 2]], [[3, 4]], [[5, 6]]]"
proof -
  have eval: "lowpass (Some 3500) 8 44100 [[[1, 2]], [[3, 4]], [[5, 6]]]
     = Inr [[[1, 2]], [[0, 0]], [[0, 0]]]"
    by (simp add: lowpass_def nearest_bin_def round_def zero_bins_from_def slice_start_def)
  have "lowpass None 8 44100 [[[1, 2]], [[3, 4]], [[5, 6]]] = Inr [[[1, 2]], [[3, 4]], [[5, 6]]]"
    using lowpass_zeroes_upper_bins [of 3500 44100 8 "[[[1, 2]], [[3, 4]], [[5, 6]]]"]
    by simp
  with eval show ?thesis by simp
qed

lemma nearest_bin_scenario: "nearest_bin 3500 2048 44100 = Inr 163"
proof -
  have "round (3500 / real 44100 * real 2048) = 163"
    by (simp add: round_def)
  then show ?thesis by (simp add: nearest_bin_def)
qed

section \<open>Properties of the pipelines\<close>

lemma length_assign_loudness [simp]: "length (assign_loudness env r v h) = length h"
  by (simp add: assign_loudness_def)

lemma nth_assign_loudness_other: "r' \<noteq> r \<Longrightarrow> assign_loudness env r v h ! r' = h ! r'"
  by (simp add: assign_loudness_def)

lemma nth_assign_loudness_same:
  "r < length h \<Longrightarrow> assign_loudness env r v h ! r = set_loudness env v (h ! r)"
  by (simp add: assign_loudness_def)

lemma assign_loudness_last:
  "assign_loudness env (length h) v (h @ [w]) = h @ [set_loudness env v w]"
  by (simp add: assign_loudness_def)

lemma samples_set_loudness:
  "samples (set_loudness env v w) = scale (loudness_gain env (measure env w) v) (samples w)"
  by (simp add: set_loudness_def)

lemma sample_rate_set_loudness [simp]: "sample_rate (set_loudness env v w) = sample_rate w"
  by (simp add: set_loudness_def)

lemma length_scale [simp]: "length (scale g a) = length a"
  by (simp add: scale_def)

lemma num_channels_scale [simp]: "num_channels (scale g a) = num_channels a"
  by (cases a) (simp_all add: scale_def num_channels_def)

lemma target_accompaniment_single_wave:
  "target_accompaniment env h (WaveObj t) (OthersSingle (WaveObj a)) sr = Inr (t, a, h)"
  by (simp add: target_accompaniment_def as_wave_def)

text \<open>
  C10. With \<open>relative_loudness = None\<close> the interference pipeline assigns no loudness
  to the accompaniment: every object of the store that \<open>target_accompaniment\<close> returned
  is left as it is, and the anchor is one new object, the sum of the target and the
  accompaniment as they are, set to the target's loudness.
\<close>

theorem interference_none_sums_raw_accompaniment:
  assumes "target_accompaniment env h target others sr = Inr (t, acc, h1)"
    and "t < length h1"
  shows "interference env h target others None sr =
           (case np_add (samples (h1 ! t)) (samples (h1 ! acc)) of
              Inl e \<Rightarrow> Inl e
            | Inr s \<Rightarrow>
                Inr (length h1,
                     h1 @ [set_loudness env (measure env (h1 ! t))
                             \<lparr>samples = s, sample_rate = sample_rate (h1 ! t)\<rparr>]))"
  using assms
  by (simp add: interference_def operand_add_def wave_operand_def alloc_operand_def
      alloc_def nth_append assign_loudness_last split: sum.splits)

lemma interference_rescales_single_accompaniment:
  assumes "interference env h (WaveObj t) (OthersSingle (WaveObj a)) (Some rl) sr = Inr (r, h')"
    and "a < length h"
  shows "h' ! a = set_loudness env (measure env (h ! t) + rl) (h ! a)"
  using assms
  by (auto simp: interference_def target_accompaniment_single_wave operand_add_def
      wave_operand_def alloc_operand_def alloc_def nth_append assign_loudness_def Let_def
      split: sum.splits)

text \<open>
  C4. The pipelines should leave the caller's buffers as they are. When \<open>others\<close> is a
  single Wave, \<open>target_accompaniment\<close> returns that very object as the accompaniment,
  and the loudness assignment of \<open>interference\<close> rescales it in the caller's store: the
  accompaniment \<open>[[0.5], [0.5], [1]]\<close> at reference 1 is \<open>[[1], [1], [2]]\<close> after the
  call. With \<open>others\<close> as a list the accompaniment is a new object and the caller's
  store is untouched (\<open>pipelines_leave_callers_store\<close>).
\<close>

theorem interference_rescales_callers_accompaniment:
  "interference sample_services
     [\<lparr>samples = [[1], [2], [-1]], sample_rate = 44100\<rparr>,
      \<lparr>samples = [[1/2], [1/2], [1]], sample_rate = 44100\<rparr>]
     (WaveObj 0) (OthersSingle (WaveObj 1)) (Some 0) None
   = Inr (2, [\<lparr>samples = [[1], [2], [-1]], sample_rate = 44100\<rparr>,
              \<lparr>samples = [[1], [1], [2]], sample_rate = 44100\<rparr>,
              \<lparr>samples = [[4/3], [2], [2/3]], sample_rate = 44100\<rparr>])"
  by (simp add: interference_def target_accompaniment_single_wave operand_add_def
      wave_operand_def alloc_operand_def alloc_def assign_loudness_def set_loudness_def
      sample_services_def scale_def np_add_def broadcastable_def num_channels_def broadcast2_def)

text \<open>
  C7. With \<open>distortion_factor = None\<close> and \<open>lowpass_cutoff = None\<close> the spectrogram of
  the target goes to the inverse transform as it is, and nothing is sampled. When the
  transform pair reproduces the target (forward, inverse, truncation to the target's
  length), the anchor is a new object equal to the target set to the target's own
  loudness.
\<close>

theorem distorted_target_without_distortion:
  assumes "t < length h"
    and "take (length (samples (h ! t)))
           (samples (istft_process env window_type num_points (num_points div 2)
                      (sample_rate (h ! t))
                      (stft_process env window_type num_points (num_points div 2) (h ! t))))
         = samples (h ! t)"
    and "sample_rate (istft_process env window_type num_points (num_points div 2)
                      (sample_rate (h ! t))
                      (stft_process env window_type num_points (num_points div 2) (h ! t)))
         = sample_rate (h ! t)"
  shows "distorted_target env h g (WaveObj t) None None num_points window_type sr
         = Inr (length h, h @ [set_loudness env (measure env (h ! t)) (h ! t)], g)"
proof -
  let ?out = "istft_process env window_type num_points (num_points div 2)
                (sample_rate (h ! t))
                (stft_process env window_type num_points (num_points div 2) (h ! t))"
  have "?out\<lparr>samples := take (length (samples (h ! t))) (samples ?out)\<rparr> = h ! t"
    using assms(2,3) by simp
  then show ?thesis
    using assms(1)
    by (simp add: distorted_target_def as_wave_def stft_istft_def frame_dropout_def
        lowpass_def alloc_def nth_append assign_loudness_last)
qed


theorem interference_none_sums_raw_accompaniment_witness:
  "interference sample_services
     [\<lparr>samples = [[1], [2], [-1]], sample_rate = 44100\<rparr>,
      \<lparr>samples = [[1/2], [1/2], [1]], sample_rate = 44100\<rparr>]
     (WaveObj 0) (OthersSingle (WaveObj 1)) None None
   = Inr (2, [\<lparr>samples = [[1], [2], [-1]], sample_rate = 44100\<rparr>,
              \<lparr>samples = [[1/2], [1/2], [1]], sample_rate = 44100\<rparr>,
              \<lparr>samples = [[3/2], [5/2], [0]], sample_rate = 44100\<rparr>])"
proof -
  let ?h = "[\<lparr>samples = [[1], [2], [-1]], sample_rate = 44100\<rparr>,
             \<lparr>samples = [[1/2], [1/2], [1]], sample_rate = 44100\<rparr>]"
  have ta: "target_accompaniment sample_services ?h (WaveObj 0) (OthersSingle (WaveObj 1)) None
              = Inr (0, 1, ?h)"
    by (simp add: target_accompaniment_def as_wave_def)
  have "(0::nat) < length ?h" by simp
  from interference_none_sums_raw_accompaniment [OF ta this]
  show ?thesis
    by (simp add: np_add_def broadcastable_def num_channels_def broadcast2_def set_loudness_def
        sample_services_def scale_def)
qed

theorem distorted_target_without_distortion_witness:
  "distorted_target sample_services
     [\<lparr>samples = [[1], [2], [-1]], sample_rate = 44100\<rparr>] 0 (WaveObj 0) None None 8 ''hann'' None
   = Inr (1, [\<lparr>samples = [[1], [2], [-1]], sample_rate = 44100\<rparr>,
              \<lparr>samples = [[1], [2], [-1]], sample_rate = 44100\<rparr>], 0)"
proof -
  let ?h = "[\<lparr>samples = [[1], [2], [-1]], sample_rate = 44100\<rparr>]"
  have "distorted_target sample_services ?h 0 (WaveObj 0) None None 8 ''hann'' None
        = Inr (length ?h,
               ?h @ [set_loudness sample_services (measure sample_services (?h ! 0)) (?h ! 0)], 0)"
    by (rule distorted_target_without_distortion)
       (simp_all add: sample_services_def num_channels_def)
  then show ?thesis
    by (simp add: set_loudness_def sample_services_def scale_def)
qed

lemma frames_assign_loudness [simp]:
  "length (samples (assign_loudness env r v h ! x)) = length (samples (h ! x))"
  by (cases "r < length h"; cases "x = r")
     (simp_all add: assign_loudness_def samples_set_loudness list_update_beyond not_less)

lemma channels_assign_loudness [simp]:
  "num_channels (samples (assign_loudness env r v h ! x)) = num_channels (samples (h ! x))"
  by (cases "r < length h"; cases "x = r")
     (simp_all add: assign_loudness_def samples_set_loudness list_update_beyond not_less)

lemma rate_assign_loudness [simp]:
  "sample_rate (assign_loudness env r v h ! x) = sample_rate (h ! x)"
  by (cases "r < length h"; cases "x = r")
     (simp_all add: assign_loudness_def list_update_beyond not_less)

text \<open>
  C6 (as amended). Nothing compares channel counts or sample rates before the
  summation. \<open>target_accompaniment\<close> returns a Wave target and a single Wave
  accompaniment as they are. \<open>interference\<close> then succeeds exactly when numpy can
  broadcast the two shapes (on each axis the lengths are equal or one of them is 1),
  whatever the two sample rates are, and the anchor carries the target's sample rate;
  otherwise the addition itself raises ValueError and there is no anchor.
\<close>

theorem interference_checks_no_shape_or_rate:
  assumes "t < length h" and "a < length h"
  shows "target_accompaniment env h (WaveObj t) (OthersSingle (WaveObj a)) sr = Inr (t, a, h)
       \<and> (if broadcastable (length (samples (h ! t))) (length (samples (h ! a)))
             \<and> broadcastable (num_channels (samples (h ! t))) (num_channels (samples (h ! a)))
          then \<exists>r h'. interference env h (WaveObj t) (OthersSingle (WaveObj a)) rl sr
                         = Inr (r, h')
                     \<and> sample_rate (h' ! r) = sample_rate (h ! t)
          else interference env h (WaveObj t) (OthersSingle (WaveObj a)) rl sr
                 = Inl ValueError)"
proof (cases rl)
  case None
  then show ?thesis
    by (simp add: target_accompaniment_single_wave interference_def operand_add_def
        wave_operand_def alloc_operand_def alloc_def np_add_def assign_loudness_last)
next
  case (Some v)
  then show ?thesis
    by (simp add: target_accompaniment_single_wave interference_def operand_add_def
        wave_operand_def alloc_operand_def alloc_def np_add_def assign_loudness_last
        Let_def nth_append)
qed

theorem interference_checks_no_shape_or_rate_witness:
  "\<exists>r h'. interference sample_services
       [\<lparr>samples = [[1], [2], [-1]], sample_rate = 44100\<rparr>,
        \<lparr>samples = [[1/2], [1/2], [1]], sample_rate = 48000\<rparr>]
       (WaveObj 0) (OthersSingle (WaveObj 1)) None None = Inr (r, h')
     \<and> sample_rate (h' ! r) = 44100"
  using interference_checks_no_shape_or_rate
          [where t = 0 and a = 1 and env = sample_services and rl = None and sr = None
             and h = "[\<lparr>samples = [[1], [2], [-1]], sample_rate = 44100\<rparr>,
                       \<lparr>samples = [[1/2], [1/2], [1]], sample_rate = 48000\<rparr>]"]
  by (simp add: broadcastable_def num_channels_def)

text \<open>
  C6 as stated fails: a mono target at 44100 Hz and a two-channel accompaniment at
  48000 Hz differ in channel count and in sample rate, and \<open>interference\<close> returns an
  anchor.
\<close>

theorem interference_accepts_mismatch_counterexample:
  "interference sample_services
     [\<lparr>samples = [[1], [2], [-1]], sample_rate = 44100\<rparr>,
      \<lparr>samples = [[1, 1], [1, 0], [0, 1]], sample_rate = 48000\<rparr>]
     (WaveObj 0) (OthersSingle (WaveObj 1)) (Some 0) None
   = Inr (2, [\<lparr>samples = [[1], [2], [-1]], sample_rate = 44100\<rparr>,
              \<lparr>samples = [[1, 1], [1, 0], [0, 1]], sample_rate = 48000\<rparr>,
              \<lparr>samples = [[4/5, 4/5], [6/5, 4/5], [-(2/5), 0]], sample_rate = 44100\<rparr>])"
  by (simp add: interference_def target_accompaniment_single_wave operand_add_def
      wave_operand_def alloc_operand_def alloc_def assign_loudness_def set_loudness_def
      sample_services_def scale_def np_add_def broadcastable_def num_channels_def broadcast2_def)

section \<open>The length of the anchors\<close>

lemma spec_shape_zero_frames: "spec_shape (zero_frames idx X) = spec_shape X"
proof (cases X)
  case Nil
  then show ?thesis by (simp add: zero_frames_def spec_shape_def)
next
  case (Cons b bs)
  then show ?thesis
    by (cases b) (simp_all add: zero_frames_def spec_shape_def)
qed

lemma spec_shape_zero_cell: "spec_shape (zero_cell X c) = spec_shape X"
proof (cases c)
  case (fields f t ch)
  show ?thesis
  proof (cases X)
    case Nil
    then show ?thesis by (simp add: zero_cell_def fields)
  next
    case (Cons b bs)
    show ?thesis
    proof (cases f)
      case 0
      show ?thesis
      proof (cases b)
        case Nil
        then show ?thesis by (simp add: zero_cell_def fields Cons 0 spec_shape_def)
      next
        case (Cons fr frs)
        then show ?thesis
          by (cases t) (simp_all add: zero_cell_def fields \<open>X = b # bs\<close> 0 spec_shape_def)
      qed
    next
      case (Suc f')
      then show ?thesis by (simp add: zero_cell_def fields Cons spec_shape_def)
    qed
  qed
qed

lemma spec_shape_fold_zero_cell:
  "spec_shape (fold (\<lambda>i x. zero_cell x (u i)) idx Y) = spec_shape Y"
  by (induction idx arbitrary: Y) (simp_all add: spec_shape_zero_cell)

lemma spec_shape_zero_cells: "spec_shape (zero_cells idx X) = spec_shape X"
  by (simp add: zero_cells_def spec_shape_fold_zero_cell)

lemma spec_shape_zero_bins_from: "spec_shape (zero_bins_from k X) = spec_shape X"
proof (cases X)
  case Nil
  then show ?thesis by (simp add: zero_bins_from_def)
next
  case (Cons b bs)
  show ?thesis
  proof (cases "slice_start k (length X)")
    case 0
    then show ?thesis
      by (cases b) (simp_all add: zero_bins_from_def Cons spec_shape_def)
  next
    case (Suc m)
    then show ?thesis
      by (simp add: zero_bins_from_def Cons spec_shape_def)
  qed
qed

lemma frame_dropout_shape:
  "frame_dropout perm g df X = Inr (X', g') \<Longrightarrow> spec_shape X' = spec_shape X"
  by (auto simp: frame_dropout_def Let_def spec_shape_zero_frames
      split: option.splits sum.splits)

lemma bin_dropout_shape:
  "bin_dropout perm g f X = Inr (X', g') \<Longrightarrow> spec_shape X' = spec_shape X"
  by (auto simp: bin_dropout_def spec_shape_zero_cells split: option.splits sum.splits)

lemma lowpass_shape:
  "lowpass lc np rate X = Inr X' \<Longrightarrow> spec_shape X' = spec_shape X"
  by (auto simp: lowpass_def spec_shape_zero_bins_from split: option.splits sum.splits)

lemma distorted_target_result:
  assumes run: "distorted_target env h g (WaveObj t) df lc np win sr = Inr (a, h', g')"
    and t: "t < length h"
    and contract: "\<forall>X. spec_shape X = spec_shape (stft_process env win np (np div 2) (h ! t))
           \<longrightarrow> length (samples (h ! t))
                 \<le> length (samples (istft_process env win np (np div 2)
                                      (sample_rate (h ! t)) X))"
  shows "a = length h \<and> length h' = Suc (length h) \<and> (\<forall>r<length h. h' ! r = h ! r)
         \<and> length (samples (h' ! a)) = length (samples (h ! t))"
proof -
  let ?X = "stft_process env win np (np div 2) (h ! t)"
  from run obtain x1 x2 where
    fd: "frame_dropout (permutation env) g df ?X = Inr (x1, g')"
    and lp: "lowpass lc np (sample_rate (h ! t)) x1 = Inr x2"
    and res: "a = length h"
      "h' = h @ [set_loudness env (measure env (h ! t))
                  ((istft_process env win np (np div 2) (sample_rate (h ! t)) x2)
                     \<lparr>samples := take (length (samples (h ! t)))
                        (samples (istft_process env win np (np div 2)
                                   (sample_rate (h ! t)) x2))\<rparr>)]"
    using t
    by (auto simp: distorted_target_def as_wave_def stft_istft_def Let_def alloc_def
        nth_append assign_loudness_last split: sum.splits)
  have "spec_shape x2 = spec_shape ?X"
    using frame_dropout_shape [OF fd] lowpass_shape [OF lp] by simp
  then have "length (samples (h ! t))
      \<le> length (samples (istft_process env win np (np div 2) (sample_rate (h ! t)) x2))"
    using contract by blast
  then show ?thesis
    by (simp add: res nth_append samples_set_loudness)
qed

lemma musical_noise_result:
  assumes run: "musical_noise env h g (WaveObj t) f lc np win sr = Inr (a, h', g')"
    and t: "t < length h"
    and contract: "\<forall>X. spec_shape X = spec_shape (stft_process env win np (np div 2) (h ! t))
           \<longrightarrow> length (samples (h ! t))
                 \<le> length (samples (istft_process env win np (np div 2)
                                      (sample_rate (h ! t)) X))"
  shows "a = length h \<and> length h' = Suc (length h) \<and> (\<forall>r<length h. h' ! r = h ! r)
         \<and> length (samples (h' ! a)) = length (samples (h ! t))"
proof -
  let ?X = "stft_process env win np (np div 2) (h ! t)"
  from run obtain x1 x2 where
    fd: "bin_dropout (permutation env) g f ?X = Inr (x1, g')"
    and lp: "lowpass lc np (sample_rate (h ! t)) x1 = Inr x2"
    and res: "a = length h"
      "h' = h @ [(istft_process env win np (np div 2) (sample_rate (h ! t)) x2)
                     \<lparr>samples := take (length (samples (h ! t)))
                        (samples (istft_process env win np (np div 2)
                                   (sample_rate (h ! t)) x2))\<rparr>]"
    by (auto simp: musical_noise_def as_wave_def stft_istft_def Let_def alloc_def
        split: sum.splits)
  have "spec_shape x2 = spec_shape ?X"
    using bin_dropout_shape [OF fd] lowpass_shape [OF lp] by simp
  then have "length (samples (h ! t))
      \<le> length (samples (istft_process env win np (np div 2) (sample_rate (h ! t)) x2))"
    using contract by blast
  then show ?thesis
    by (simp add: res nth_append)
qed

lemma np_add_frames:
  "np_add a b = Inr s \<Longrightarrow> length a = length b \<Longrightarrow> length s = length a"
  by (auto simp: np_add_def broadcast2_def split: if_splits)

lemma operand_add_frames:
  assumes "operand_add x y = Inr s" and "length (fst x) = length (fst y)"
  shows "length (fst s) = length (fst x) \<and> (snd x \<noteq> None \<longrightarrow> snd s = snd x)"
  using assms
  by (auto simp: operand_add_def split: sum.splits dest: np_add_frames)

lemma sum_from_frames:
  assumes "sum_from acc xs = Inr s"
    and "\<forall>x \<in> set xs. length (fst x) = n" and "length (fst acc) = n"
  shows "length (fst s) = n \<and> (snd acc \<noteq> None \<longrightarrow> snd s = snd acc)"
  using assms
proof (induction xs arbitrary: acc)
  case Nil
  then show ?case by simp
next
  case (Cons x xs)
  from Cons.prems(1) obtain acc' where
    add: "operand_add acc x = Inr acc'" and rest: "sum_from acc' xs = Inr s"
    by (auto split: sum.splits)
  have "length (fst acc) = length (fst x)"
    using Cons.prems by simp
  from operand_add_frames [OF add this]
  have acc': "length (fst acc') = n" "snd acc \<noteq> None \<longrightarrow> snd acc' = snd acc"
    using Cons.prems by simp_all
  have "length (fst s) = n \<and> (snd acc' \<noteq> None \<longrightarrow> snd s = snd acc')"
    using Cons.IH [OF rest _ acc'(1)] Cons.prems(2) by simp
  with acc' show ?case by auto
qed

lemma add_zero_row: "map ((+) (0::real)) fr = fr"
  by (induction fr) simp_all

lemma add_zero_array: "map (map ((+) (0::real))) a = a"
  by (induction a) (simp_all add: add_zero_row)

lemma py_sum_frames:
  assumes "py_sum xs = Inr s"
    and "\<forall>x \<in> set xs. length (fst x) = n \<and> snd x \<noteq> None"
  shows "length (fst s) = n \<and> snd s \<noteq> None"
proof (cases xs)
  case Nil
  with assms(1) show ?thesis by (simp add: py_sum_def)
next
  case (Cons x rest)
  have run: "sum_from x rest = Inr s"
    using assms(1) by (simp add: py_sum_def Cons add_zero_array)
  have "length (fst s) = n \<and> (snd x \<noteq> None \<longrightarrow> snd s = snd x)"
    by (rule sum_from_frames [OF run]) (use assms(2) Cons in simp_all)
  then show ?thesis using assms(2) Cons by auto
qed

lemma sum_truncate_match_result:
  assumes run: "sum_truncate_match env h t sigs = Inr (a, h')"
    and sigs: "\<forall>r \<in> set sigs. length (samples (h ! r)) = length (samples (h ! t))"
    and t: "t < length h"
  shows "length (samples (h' ! a)) = length (samples (h ! t))"
proof -
  from run obtain s rate where
    sum: "py_sum (map (\<lambda>r. wave_operand (h ! r)) sigs) = Inr s"
    and res: "a = length h"
      "h' = h @ [set_loudness env (measure env (h ! t))
                  \<lparr>samples = take (length (samples (h ! t))) (fst s), sample_rate = rate\<rparr>]"
    using t
    by (auto simp: sum_truncate_match_def alloc_operand_def alloc_def nth_append
        assign_loudness_last split: sum.splits option.splits)
  have "length (fst s) = length (samples (h ! t)) \<and> snd s \<noteq> None"
    by (rule py_sum_frames [OF sum]) (use sigs in \<open>simp add: wave_operand_def\<close>)
  then show ?thesis
    by (simp add: res samples_set_loudness)
qed


lemma add_then_alloc:
  assumes "operand_add (wave_operand w1) (wave_operand w2) = Inr s"
    and "alloc_operand h s = Inr (a, h3)"
    and "length (samples w1) = length (samples w2)"
  shows "a = length h \<and> length (samples (h3 ! a)) = length (samples w1)"
  using assms operand_add_frames [of "wave_operand w1" "wave_operand w2" s]
  by (auto simp: alloc_operand_def alloc_def wave_operand_def split: option.splits)

lemma np_add_keeps_frames:
  assumes "np_add a b = Inr s" and "length a \<noteq> 1"
  shows "length s = length a"
  using assms
  by (auto simp: np_add_def broadcastable_def broadcast2_def split: if_splits)

lemma np_add_one_frame:
  assumes "np_add a b = Inr s" and "length a = 1"
  shows "length s = length b"
  using assms
  by (auto simp: np_add_def broadcastable_def broadcast2_def split: if_splits)

lemma add_then_alloc_frames:
  assumes "operand_add (wave_operand w1) (wave_operand w2) = Inr s"
    and "alloc_operand h s = Inr (a, h3)"
    and "length (samples w1) \<noteq> 1"
  shows "a = length h \<and> length (samples (h3 ! a)) = length (samples w1)"
  using assms np_add_keeps_frames [of "samples w1" "samples w2" "fst s"]
  by (auto simp: operand_add_def alloc_operand_def alloc_def wave_operand_def
      split: sum.splits option.splits)

lemma target_accompaniment_target:
  assumes "target_accompaniment env h (WaveObj t) others sr = Inr (t', acc, h1)"
  shows "t' = t \<and> length h \<le> length h1 \<and> take (length h) h1 = h"
  using assms
  by (auto simp: target_accompaniment_def as_wave_def alloc_def alloc_operand_def Let_def
      split: sum.splits others_arg.splits list.splits option.splits pyval.splits if_splits)

lemma nth_of_prefix:
  assumes "take (length h) h1 = h" and "r < length h"
  shows "h1 ! r = h ! r"
proof -
  have "take (length h) h1 ! r = h1 ! r" using assms(2) by simp
  then show ?thesis using assms(1) by simp
qed

lemma artefacts_result:
  assumes run: "artefacts env h g (WaveObj t) f lc np win sr = Inr (a, h', g')"
    and t: "t < length h"
    and contract: "\<forall>X. spec_shape X = spec_shape (stft_process env win np (np div 2) (h ! t))
           \<longrightarrow> length (samples (h ! t))
                 \<le> length (samples (istft_process env win np (np div 2)
                                      (sample_rate (h ! t)) X))"
  shows "length (samples (h' ! a)) = length (samples (h ! t))"
proof -
  from run obtain n h1 s h3 where
    mn: "musical_noise env h g (WaveObj t) f lc np win sr = Inr (n, h1, g')"
    and add: "operand_add
                (wave_operand (assign_loudness env n (measure env (h1 ! t)) h1 ! n))
                (wave_operand (assign_loudness env n (measure env (h1 ! t)) h1 ! t)) = Inr s"
    and al: "alloc_operand (assign_loudness env n (measure env (h1 ! t)) h1) s = Inr (a, h3)"
    and res: "h' = assign_loudness env a (measure env (h3 ! t)) h3"
    by (auto simp: artefacts_def Let_def split: sum.splits)
  from musical_noise_result [OF mn t contract]
  have m: "length (samples (h1 ! n)) = length (samples (h ! t))" "h1 ! t = h ! t"
    using t by auto
  have "length (samples (h3 ! a)) = length (samples (h ! t))"
    using add_then_alloc [OF add al] m by auto
  then show ?thesis by (simp add: res)
qed

lemma interference_result:
  assumes run: "interference env h (WaveObj t) others rl sr = Inr (a, h')"
    and t: "t < length h"
    and n: "length (samples (h ! t)) \<noteq> 1"
  shows "length (samples (h' ! a)) = length (samples (h ! t))"
proof -
  from run obtain t' acc h1 where
    ta: "target_accompaniment env h (WaveObj t) others sr = Inr (t', acc, h1)"
    by (auto simp: interference_def split: sum.splits)
  from target_accompaniment_target [OF ta]
  have f: "t' = t" "take (length h) h1 = h" by auto
  have ht: "h1 ! t = h ! t" by (rule nth_of_prefix [OF f(2) t])
  define h2 where "h2 = (case rl of None \<Rightarrow> h1
      | Some v \<Rightarrow> assign_loudness env acc (measure env (h1 ! t) + v) h1)"
  have fr: "length (samples (h2 ! x)) = length (samples (h1 ! x))" for x
    by (simp add: h2_def split: option.splits)
  from run ta f(1) obtain s h3 where
    add: "operand_add (wave_operand (h2 ! t)) (wave_operand (h2 ! acc)) = Inr s"
    and al: "alloc_operand h2 s = Inr (a, h3)"
    and res: "h' = assign_loudness env a (measure env (h3 ! t)) h3"
    by (auto simp: interference_def Let_def h2_def split: sum.splits)
  have "length (samples (h2 ! t)) \<noteq> 1" using n by (simp add: fr ht)
  from add_then_alloc_frames [OF add al this]
  have "length (samples (h3 ! a)) = length (samples (h2 ! t))" by auto
  then show ?thesis by (simp add: res fr ht)
qed

lemma py_sum_three_frames:
  assumes "py_sum [x1, x2, x3] = Inr s"
    and "length (fst x1) = n" and "length (fst x2) = n"
    and "n \<noteq> 1 \<or> fst x3 \<noteq> []"
  shows "n \<le> length (fst s)"
proof -
  from assms(1) obtain s1 where
    s1: "operand_add (fst x1, snd x1) x2 = Inr s1" and s: "operand_add s1 x3 = Inr s"
    by (auto simp: py_sum_def add_zero_array split: sum.splits)
  have l1: "length (fst s1) = n"
    using operand_add_frames [OF s1] assms(2,3) by simp
  from s obtain r where r: "np_add (fst s1) (fst x3) = Inr r" "fst s = r"
    by (auto simp: operand_add_def split: sum.splits)
  show ?thesis
  proof (cases "n = 1")
    case False
    then show ?thesis using np_add_keeps_frames [OF r(1)] l1 r(2) by simp
  next
    case True
    then have "fst x3 \<noteq> []" using assms(4) by simp
    then have "1 \<le> length (fst x3)" by (cases "fst x3") simp_all
    then show ?thesis using np_add_one_frame [OF r(1)] l1 r(2) True by simp
  qed
qed

lemma py_sum_two_frames:
  assumes "py_sum [x1, x2] = Inr s"
    and "length (fst x1) = n" and "length (fst x2) = n"
  shows "length (fst s) = n"
proof -
  from assms(1) have s: "operand_add (fst x1, snd x1) x2 = Inr s"
    by (auto simp: py_sum_def add_zero_array split: sum.splits)
  show ?thesis using operand_add_frames [OF s] assms(2,3) by simp
qed

lemma sum_truncate_match_frames:
  assumes run: "sum_truncate_match env h t sigs = Inr (a, h')"
    and t: "t < length h"
    and long: "\<And>s. py_sum (map (\<lambda>r. wave_operand (h ! r)) sigs) = Inr s
                 \<Longrightarrow> length (samples (h ! t)) \<le> length (fst s)"
  shows "length (samples (h' ! a)) = length (samples (h ! t))"
proof -
  from run obtain s rate where
    sum: "py_sum (map (\<lambda>r. wave_operand (h ! r)) sigs) = Inr s"
    and res: "a = length h"
      "h' = h @ [set_loudness env (measure env (h ! t))
                  \<lparr>samples = take (length (samples (h ! t))) (fst s), sample_rate = rate\<rparr>]"
    using t
    by (auto simp: sum_truncate_match_def alloc_operand_def alloc_def nth_append
        assign_loudness_last split: sum.splits option.splits)
  from long [OF sum] show ?thesis
    by (simp add: res samples_set_loudness)
qed


lemma overall_quality_result:
  assumes run: "overall_quality env h g (WaveObj t) others dft dfn lct lcn rl np win sr
                  = Inr (a, h', g')"
    and t: "t < length h"
    and contract: "\<forall>X. spec_shape X = spec_shape (stft_process env win np (np div 2) (h ! t))
           \<longrightarrow> length (samples (h ! t))
                 \<le> length (samples (istft_process env win np (np div 2)
                                      (sample_rate (h ! t)) X))"
    and acc: "length (samples (h ! t)) \<noteq> 1
              \<or> (\<forall>t' acc h1. target_accompaniment env h (WaveObj t) others sr
                                = Inr (t', acc, h1)
                    \<longrightarrow> acc < length h1 \<and> samples (h1 ! acc) \<noteq> [])"
  shows "length (samples (h' ! a)) = length (samples (h ! t))"
proof -
  from run obtain t' acc h1 d h2 g1 m h3 g2 where
    ta: "target_accompaniment env h (WaveObj t) others sr = Inr (t', acc, h1)"
    and dt: "distorted_target env h1 g (WaveObj t') dft lct np win sr = Inr (d, h2, g1)"
    and mn: "musical_noise env h2 g1 (WaveObj t') dfn lcn np win sr = Inr (m, h3, g2)"
    and stm: "sum_truncate_match env
                (assign_loudness env ([d, m, acc] ! 2) (-23 + rl)
                   (fold (\<lambda>signal. assign_loudness env signal (-23)) [d, m, acc] h3))
                t' [d, m, acc] = Inr (a, h')"
    by (auto simp: overall_quality_def Let_def split: sum.splits)
  from target_accompaniment_target [OF ta]
  have f: "t' = t" "length h \<le> length h1" "take (length h) h1 = h" by auto
  have t1: "t < length h1" using t f(2) by simp
  have ht1: "h1 ! t = h ! t" by (rule nth_of_prefix [OF f(3) t])
  have c1: "\<forall>X. spec_shape X = spec_shape (stft_process env win np (np div 2) (h1 ! t))
           \<longrightarrow> length (samples (h1 ! t))
                 \<le> length (samples (istft_process env win np (np div 2)
                                      (sample_rate (h1 ! t)) X))"
    using contract by (simp add: ht1)
  from distorted_target_result [OF dt [unfolded f(1)] t1 c1]
  have d: "d = length h1" "length h2 = Suc (length h1)" "\<forall>r<length h1. h2 ! r = h1 ! r"
    "length (samples (h2 ! d)) = length (samples (h ! t))"
    by (auto simp: ht1)
  have t2: "t < length h2" "h2 ! t = h ! t"
    using d t1 ht1 by simp_all
  have c2: "\<forall>X. spec_shape X = spec_shape (stft_process env win np (np div 2) (h2 ! t))
           \<longrightarrow> length (samples (h2 ! t))
                 \<le> length (samples (istft_process env win np (np div 2)
                                      (sample_rate (h2 ! t)) X))"
    using contract by (simp add: t2)
  from musical_noise_result [OF mn [unfolded f(1)] t2(1) c2]
  have m: "m = length h2" "length h3 = Suc (length h2)" "\<forall>r<length h2. h3 ! r = h2 ! r"
    "length (samples (h3 ! m)) = length (samples (h ! t))"
    by (auto simp: t2)
  have h3: "length (samples (h3 ! d)) = length (samples (h ! t))"
    "length (samples (h3 ! t)) = length (samples (h ! t))" "t < length h3"
    using d m t1 t2 by simp_all
  have acc3: "length (samples (h ! t)) \<noteq> 1 \<or> samples (h3 ! acc) \<noteq> []"
  proof (cases "length (samples (h ! t)) = 1")
    case False
    then show ?thesis by simp
  next
    case True
    with acc ta have a1: "acc < length h1" "samples (h1 ! acc) \<noteq> []" by blast+
    then have "h3 ! acc = h1 ! acc" using d m by simp
    with a1 show ?thesis by simp
  qed
  let ?h5 = "assign_loudness env ([d, m, acc] ! 2) (-23 + rl)
               (fold (\<lambda>signal. assign_loudness env signal (-23)) [d, m, acc] h3)"
  have fr5: "length (samples (?h5 ! x)) = length (samples (h3 ! x))" for x
    by simp
  have "length (samples (h' ! a)) = length (samples (?h5 ! t))"
  proof (rule sum_truncate_match_frames [OF stm [unfolded f(1)]])
    show "t < length ?h5" using h3(3) by simp
    fix s
    assume "py_sum (map (\<lambda>r. wave_operand (?h5 ! r)) [d, m, acc]) = Inr s"
    then have sum: "py_sum [wave_operand (?h5 ! d), wave_operand (?h5 ! m),
                            wave_operand (?h5 ! acc)] = Inr s"
      by simp
    have "length (samples (h ! t)) \<noteq> 1 \<or> fst (wave_operand (?h5 ! acc)) \<noteq> []"
    proof (cases "length (samples (h ! t)) = 1")
      case False
      then show ?thesis by simp
    next
      case True
      with acc3 have ne: "samples (h3 ! acc) \<noteq> []" by simp
      have "length (samples (?h5 ! acc)) = length (samples (h3 ! acc))" by (rule fr5)
      with ne have "samples (?h5 ! acc) \<noteq> []" by (metis length_0_conv)
      then show ?thesis unfolding wave_operand_def fst_conv by blast
    qed
    from py_sum_three_frames [OF sum _ _ this]
    have "length (samples (h ! t)) \<le> length (fst s)"
      using h3 m by (simp add: wave_operand_def)
    then show "length (samples (?h5 ! t)) \<le> length (fst s)"
      unfolding fr5 using h3 by simp
  qed
  then show ?thesis using h3 by simp
qed

lemma target_sound_quality_result:
  assumes run: "target_sound_quality env h g (WaveObj t) dft dfn lct lcn np win sr
                  = Inr (a, h', g')"
    and t: "t < length h"
    and contract: "\<forall>X. spec_shape X = spec_shape (stft_process env win np (np div 2) (h ! t))
           \<longrightarrow> length (samples (h ! t))
                 \<le> length (samples (istft_process env win np (np div 2)
                                      (sample_rate (h ! t)) X))"
  shows "length (samples (h' ! a)) = length (samples (h ! t))"
proof -
  from run obtain d h2 g1 m h3 g2 where
    dt: "distorted_target env h g (WaveObj t) dft lct np win sr = Inr (d, h2, g1)"
    and mn: "musical_noise env h2 g1 (WaveObj t) dfn lcn np win sr = Inr (m, h3, g2)"
    and stm: "sum_truncate_match env
                (fold (\<lambda>signal. assign_loudness env signal (-23)) [d, m] h3)
                t [d, m] = Inr (a, h')"
    by (auto simp: target_sound_quality_def as_wave_def Let_def split: sum.splits)
  from distorted_target_result [OF dt t contract]
  have d: "d = length h" "length h2 = Suc (length h)" "\<forall>r<length h. h2 ! r = h ! r"
    "length (samples (h2 ! d)) = length (samples (h ! t))"
    by auto
  have t2: "t < length h2" "h2 ! t = h ! t"
    using d t by simp_all
  have c2: "\<forall>X. spec_shape X = spec_shape (stft_process env win np (np div 2) (h2 ! t))
           \<longrightarrow> length (samples (h2 ! t))
                 \<le> length (samples (istft_process env win np (np div 2)
                                      (sample_rate (h2 ! t)) X))"
    using contract by (simp add: t2)
  from musical_noise_result [OF mn t2(1) c2]
  have m: "m = length h2" "length h3 = Suc (length h2)" "\<forall>r<length h2. h3 ! r = h2 ! r"
    "length (samples (h3 ! m)) = length (samples (h ! t))"
    by (auto simp: t2)
  have h3: "length (samples (h3 ! d)) = length (samples (h ! t))"
    "length (samples (h3 ! t)) = length (samples (h ! t))" "t < length h3"
    using d m t t2 by simp_all
  let ?h4 = "fold (\<lambda>signal. assign_loudness env signal (-23)) [d, m] h3"
  have fr4: "length (samples (?h4 ! x)) = length (samples (h3 ! x))" for x
    by simp
  have "length (samples (h' ! a)) = length (samples (?h4 ! t))"
  proof (rule sum_truncate_match_frames [OF stm])
    show "t < length ?h4" using h3(3) by simp
    fix s
    assume "py_sum (map (\<lambda>r. wave_operand (?h4 ! r)) [d, m]) = Inr s"
    then have sum: "py_sum [wave_operand (?h4 ! d), wave_operand (?h4 ! m)] = Inr s"
      by simp
    from py_sum_two_frames [OF sum, of "length (samples (h ! t))"]
    have "length (fst s) = length (samples (h ! t))"
      using h3 m by (simp add: wave_operand_def)
    then show "length (samples (?h4 ! t)) \<le> length (fst s)"
      unfolding fr4 using h3 by simp
  qed
  then show ?thesis using h3 by simp
qed

text \<open>C9 (as amended). Let the target hold \<open>n\<close> samples, and let the inverse transform
  return at least \<open>n\<close> samples for every spectrogram of the shape of the target's transform.
  Whatever \<open>others\<close> holds, whenever a pipeline returns:
  \<^item> the anchors of \<open>distorted_target\<close>, \<open>artefacts\<close> and \<open>target_sound_quality\<close> have exactly
    \<open>n\<close> samples;
  \<^item> \<open>interference\<close> adds with no truncation, and its anchor has \<open>n\<close> samples when the target
    does not have exactly one sample;
  \<^item> the anchor of \<open>overall_quality\<close> has \<open>n\<close> samples when the target does not have exactly
    one sample, or when the accompaniment holds at least one sample.\<close>

theorem anchors_keep_target_length:
  assumes t: "t < length h"
    and contract: "\<forall>X. spec_shape X = spec_shape (stft_process env win np (np div 2) (h ! t))
           \<longrightarrow> length (samples (h ! t))
                 \<le> length (samples (istft_process env win np (np div 2)
                                      (sample_rate (h ! t)) X))"
  shows "(\<forall>a h' g'. distorted_target env h g (WaveObj t) dft lct np win sr = Inr (a, h', g')
            \<longrightarrow> length (samples (h' ! a)) = length (samples (h ! t)))
       \<and> (\<forall>a h' g'. artefacts env h g (WaveObj t) dfn lcn np win sr = Inr (a, h', g')
            \<longrightarrow> length (samples (h' ! a)) = length (samples (h ! t)))
       \<and> (\<forall>a h' g'. target_sound_quality env h g (WaveObj t) dft dfn lct lcn np win sr
                       = Inr (a, h', g')
            \<longrightarrow> length (samples (h' ! a)) = length (samples (h ! t)))
       \<and> (\<forall>a h'. interference env h (WaveObj t) others rl sr = Inr (a, h')
            \<longrightarrow> length (samples (h ! t)) \<noteq> 1
            \<longrightarrow> length (samples (h' ! a)) = length (samples (h ! t)))
       \<and> (\<forall>a h' g'. overall_quality env h g (WaveObj t) others dft dfn lct lcn rl' np win sr
                       = Inr (a, h', g')
            \<longrightarrow> length (samples (h ! t)) \<noteq> 1
                \<or> (\<forall>t' acc h1. target_accompaniment env h (WaveObj t) others sr
                                  = Inr (t', acc, h1)
                      \<longrightarrow> acc < length h1 \<and> samples (h1 ! acc) \<noteq> [])
            \<longrightarrow> length (samples (h' ! a)) = length (samples (h ! t)))"
proof -
  have c1: "\<forall>a h' g'. distorted_target env h g (WaveObj t) dft lct np win sr = Inr (a, h', g')
            \<longrightarrow> length (samples (h' ! a)) = length (samples (h ! t))"
    using distorted_target_result [OF _ t contract] by blast
  have c2: "\<forall>a h' g'. artefacts env h g (WaveObj t) dfn lcn np win sr = Inr (a, h', g')
            \<longrightarrow> length (samples (h' ! a)) = length (samples (h ! t))"
    using artefacts_result [OF _ t contract] by blast
  have c3: "\<forall>a h' g'. target_sound_quality env h g (WaveObj t) dft dfn lct lcn np win sr
                       = Inr (a, h', g')
            \<longrightarrow> length (samples (h' ! a)) = length (samples (h ! t))"
    using target_sound_quality_result [OF _ t contract] by blast
  have c4: "\<forall>a h'. interference env h (WaveObj t) others rl sr = Inr (a, h')
            \<longrightarrow> length (samples (h ! t)) \<noteq> 1
            \<longrightarrow> length (samples (h' ! a)) = length (samples (h ! t))"
    using interference_result [OF _ t] by blast
  have c5: "\<forall>a h' g'. overall_quality env h g (WaveObj t) others dft dfn lct lcn rl' np win sr
                       = Inr (a, h', g')
            \<longrightarrow> length (samples (h ! t)) \<noteq> 1
                \<or> (\<forall>t' acc h1. target_accompaniment env h (WaveObj t) others sr
                                  = Inr (t', acc, h1)
                      \<longrightarrow> acc < length h1 \<and> samples (h1 ! acc) \<noteq> [])
            \<longrightarrow> length (samples (h' ! a)) = length (samples (h ! t))"
  proof (intro allI impI)
    fix a h' g'
    assume r: "overall_quality env h g (WaveObj t) others dft dfn lct lcn rl' np win sr
                 = Inr (a, h', g')"
      and ac: "length (samples (h ! t)) \<noteq> 1
                \<or> (\<forall>t' acc h1. target_accompaniment env h (WaveObj t) others sr
                                  = Inr (t', acc, h1)
                      \<longrightarrow> acc < length h1 \<and> samples (h1 ! acc) \<noteq> [])"
    show "length (samples (h' ! a)) = length (samples (h ! t))"
      by (rule overall_quality_result [OF r t contract ac])
  qed
  from c1 c2 c3 c4 c5 show ?thesis by (intro conjI)
qed


text \<open>The inverse transform of the sample services returns one sample per frame of the
  spectrogram but the padding frame, so it meets the hypothesis on the inverse transform.\<close>

lemma sample_services_contract:
  assumes "spec_shape X = spec_shape (stft_process sample_services win np hop w)"
  shows "length (samples w) \<le> length (samples (istft_process sample_services win np hop rate X))"
  using assms by (cases X) (auto simp: sample_services_def spec_shape_def)

text \<open>The amended C9 on a run of \<open>interference\<close>: a target of three samples and an
  accompaniment of one sample, broadcast over the target, give an anchor of three samples.\<close>

theorem anchors_keep_target_length_witness:
  "interference sample_services
     [\<lparr>samples = [[1], [2], [-1]], sample_rate = 44100\<rparr>,
      \<lparr>samples = [[2]], sample_rate = 44100\<rparr>]
     (WaveObj 0) (OthersSingle (WaveObj 1)) None None
   = Inr (2, [\<lparr>samples = [[1], [2], [-1]], sample_rate = 44100\<rparr>,
              \<lparr>samples = [[2]], sample_rate = 44100\<rparr>,
              \<lparr>samples = [[3/2], [2], [1/2]], sample_rate = 44100\<rparr>])
   \<and> length (samples ([\<lparr>samples = [[1], [2], [-1]], sample_rate = 44100\<rparr>,
              \<lparr>samples = [[2]], sample_rate = 44100\<rparr>,
              \<lparr>samples = [[3/2], [2], [1/2]], sample_rate = 44100\<rparr>] ! 2))
     = length (samples ([\<lparr>samples = [[1], [2], [-1]], sample_rate = 44100\<rparr>,
              \<lparr>samples = [[2]], sample_rate = 44100\<rparr>] ! 0))"
proof -
  let ?h = "[\<lparr>samples = [[1], [2], [-1]], sample_rate = 44100\<rparr>,
             \<lparr>samples = [[2]], sample_rate = 44100\<rparr>]"
  let ?h' = "[\<lparr>samples = [[1], [2], [-1]], sample_rate = 44100\<rparr>,
              \<lparr>samples = [[2]], sample_rate = 44100\<rparr>,
              \<lparr>samples = [[3/2], [2], [1/2]], sample_rate = 44100\<rparr>]"
  have run: "interference sample_services ?h (WaveObj 0) (OthersSingle (WaveObj 1)) None None
               = Inr (2, ?h')"
    by (simp add: interference_def target_accompaniment_single_wave operand_add_def
        wave_operand_def alloc_operand_def alloc_def assign_loudness_def set_loudness_def
        sample_services_def scale_def np_add_def broadcastable_def num_channels_def
        broadcast2_def)
  have h1: "(0::nat) < length ?h" by simp
  have h2: "\<forall>X. spec_shape X
                  = spec_shape (stft_process sample_services ''hann'' 8 (8 div 2) (?h ! 0))
           \<longrightarrow> length (samples (?h ! 0))
                 \<le> length (samples (istft_process sample_services ''hann'' 8 (8 div 2)
                                      (sample_rate (?h ! 0)) X))"
    using sample_services_contract by blast
  have n: "length (samples (?h ! 0)) \<noteq> 1" by simp
  note all = anchors_keep_target_length [OF h1 h2]
  have "length (samples (?h' ! 2)) = length (samples (?h ! 0))"
    using all [THEN conjunct2, THEN conjunct2, THEN conjunct2, THEN conjunct1,
               rule_format, OF run n] .
  with run show ?thesis by (rule conjI)
qed

text \<open>C9 as stated fails: \<open>interference\<close> does not truncate its sum. With a target of one
  sample and an accompaniment of three samples, numpy broadcasts the target over the
  accompaniment, and the anchor has three samples where the target has one.\<close>

theorem interference_broadcasts_counterexample:
  "interference sample_services
     [\<lparr>samples = [[1]], sample_rate = 44100\<rparr>,
      \<lparr>samples = [[1], [2], [3]], sample_rate = 44100\<rparr>]
     (WaveObj 0) (OthersSingle (WaveObj 1)) None None
   = Inr (2, [\<lparr>samples = [[1]], sample_rate = 44100\<rparr>,
              \<lparr>samples = [[1], [2], [3]], sample_rate = 44100\<rparr>,
              \<lparr>samples = [[2/9], [1/3], [4/9]], sample_rate = 44100\<rparr>])
   \<and> length (samples \<lparr>samples = [[2/9], [1/3], [4/9]], sample_rate = 44100\<rparr>) = 3
   \<and> length (samples \<lparr>samples = [[1]], sample_rate = 44100\<rparr>) = 1"
  by (simp add: interference_def target_accompaniment_single_wave operand_add_def
      wave_operand_def alloc_operand_def alloc_def assign_loudness_def set_loudness_def
      sample_services_def scale_def np_add_def broadcastable_def num_channels_def
      broadcast2_def)

section \<open>The caller's objects\<close>

lemma take_assign_loudness:
  "n \<le> r \<Longrightarrow> take n (assign_loudness env r v H) = take n H"
  by (simp add: assign_loudness_def)

lemma as_wave_frame:
  "as_wave env h target sr = (t, h1) \<Longrightarrow> length h \<le> length h1 \<and> take (length h) h1 = h"
  by (auto simp: as_wave_def alloc_def split: pyval.splits)

lemma distorted_target_fresh:
  assumes "distorted_target env h g target df lc np win sr = Inr (a, h', g')"
  shows "length h \<le> a \<and> a < length h' \<and> take (length h) h' = h
         \<and> (is_wave target \<longrightarrow> a = length h)"
  using assms
  by (auto simp: distorted_target_def as_wave_def stft_istft_def Let_def alloc_def
      take_assign_loudness is_wave_def split: sum.splits pyval.splits)

lemma musical_noise_fresh:
  assumes "musical_noise env h g target f lc np win sr = Inr (a, h', g')"
  shows "length h \<le> a \<and> a < length h' \<and> take (length h) h' = h
         \<and> (is_wave target \<longrightarrow> a = length h)"
  using assms
  by (auto simp: musical_noise_def as_wave_def stft_istft_def Let_def alloc_def
      is_wave_def split: sum.splits pyval.splits)

lemma alloc_operand_fresh:
  "alloc_operand H s = Inr (a, H') \<Longrightarrow> a = length H \<and> length H' = Suc (length H)
     \<and> (\<forall>n \<le> length H. take n H' = take n H)"
  by (auto simp: alloc_operand_def alloc_def split: option.splits)

lemma artefacts_frame:
  assumes run: "artefacts env h g target f lc np win sr = Inr (a, h', g')"
  shows "length h \<le> a \<and> take (length h) h' = h"
proof -
  from run obtain n h1 t s h3 where
    mn: "musical_noise env h g target f lc np win sr = Inr (n, h1, g')"
    and al: "alloc_operand (assign_loudness env n (measure env (h1 ! t)) h1) s = Inr (a, h3)"
    and res: "h' = assign_loudness env a (measure env (h3 ! t)) h3"
    by (auto simp: artefacts_def Let_def split: sum.splits pyval.splits)
  from musical_noise_fresh [OF mn]
  have n: "length h \<le> n" "n < length h1" "take (length h) h1 = h" by auto
  from alloc_operand_fresh [OF al]
  have a: "a = length h1" "take (length h) h3 = take (length h) h1"
    using n by (auto simp: take_assign_loudness)
  show ?thesis
    using n a by (simp add: res take_assign_loudness)
qed

lemma target_accompaniment_list_fresh:
  assumes "target_accompaniment env h target (OthersList os) sr = Inr (t, acc, h1)"
  shows "acc = length h \<and> length h < length h1 \<and> take (length h) h1 = h"
  using assms
  by (auto simp: target_accompaniment_def as_wave_def alloc_def alloc_operand_def Let_def
      split: sum.splits list.splits option.splits pyval.splits if_splits)

lemma interference_list_frame:
  assumes run: "interference env h target (OthersList os) rl sr = Inr (a, h')"
  shows "length h \<le> a \<and> take (length h) h' = h"
proof -
  from run obtain t acc h1 where
    ta: "target_accompaniment env h target (OthersList os) sr = Inr (t, acc, h1)"
    by (auto simp: interference_def split: sum.splits)
  from target_accompaniment_list_fresh [OF ta]
  have f: "acc = length h" "length h < length h1" "take (length h) h1 = h" by auto
  define h2 where "h2 = (case rl of None \<Rightarrow> h1
      | Some v \<Rightarrow> assign_loudness env acc (measure env (h1 ! t) + v) h1)"
  have h2: "length h2 = length h1" "take (length h) h2 = h"
    using f by (auto simp: h2_def take_assign_loudness split: option.splits)
  from run ta obtain s h3 where
    al: "alloc_operand h2 s = Inr (a, h3)"
    and res: "h' = assign_loudness env a (measure env (h3 ! t)) h3"
    by (auto simp: interference_def Let_def h2_def split: sum.splits)
  from alloc_operand_fresh [OF al]
  have a: "a = length h2" "take (length h) h3 = take (length h) h2"
    using f h2 by auto
  show ?thesis
    using f h2 a by (simp add: res take_assign_loudness)
qed

lemma sum_truncate_match_frame:
  assumes run: "sum_truncate_match env H t sigs = Inr (a, h')" and n: "n \<le> length H"
  shows "n \<le> a \<and> take n h' = take n H"
proof -
  from run obtain s h3 where
    al: "alloc_operand H s = Inr (a, h3)"
    and res: "h' = assign_loudness env a (measure env (h3 ! t)) h3"
    by (auto simp: sum_truncate_match_def split: sum.splits)
  from alloc_operand_fresh [OF al] n
  have "a = length H" "take n h3 = take n H" by auto
  then show ?thesis using n by (simp add: res take_assign_loudness)
qed

lemma overall_quality_list_frame:
  assumes run: "overall_quality env h g target (OthersList os) dft dfn lct lcn rl np win sr
                  = Inr (a, h', g')"
  shows "length h \<le> a \<and> take (length h) h' = h"
proof -
  from run obtain t acc h1 d h2 g1 m h3 g2 where
    ta: "target_accompaniment env h target (OthersList os) sr = Inr (t, acc, h1)"
    and dt: "distorted_target env h1 g (WaveObj t) dft lct np win sr = Inr (d, h2, g1)"
    and mn: "musical_noise env h2 g1 (WaveObj t) dfn lcn np win sr = Inr (m, h3, g2)"
    and stm: "sum_truncate_match env
                (assign_loudness env ([d, m, acc] ! 2) (-23 + rl)
                   (fold (\<lambda>signal. assign_loudness env signal (-23)) [d, m, acc] h3))
                t [d, m, acc] = Inr (a, h')"
    by (auto simp: overall_quality_def Let_def split: sum.splits)
  from target_accompaniment_list_fresh [OF ta]
  have f: "acc = length h" "length h < length h1" "take (length h) h1 = h" by auto
  from distorted_target_fresh [OF dt]
  have d: "length h1 \<le> d" "d < length h2" "take (length h1) h2 = h1" by auto
  from musical_noise_fresh [OF mn]
  have m: "length h2 \<le> m" "m < length h3" "take (length h2) h3 = h2" by auto
  have le: "length h \<le> length h1" "length h1 \<le> length h2" "length h2 \<le> length h3"
    using f d m by auto
  have "take (length h) h2 = take (length h) (take (length h1) h2)"
    using le by (simp add: min_def)
  then have t2: "take (length h) h2 = h" using d f by simp
  have "take (length h) h3 = take (length h) (take (length h2) h3)"
    using le by (simp add: min_def)
  then have t3: "take (length h) h3 = h" using m t2 by simp
  let ?h5 = "assign_loudness env ([d, m, acc] ! 2) (-23 + rl)
               (fold (\<lambda>signal. assign_loudness env signal (-23)) [d, m, acc] h3)"
  have h5: "length h \<le> length ?h5" "take (length h) ?h5 = h"
    using le f d m t3 by (simp_all add: take_assign_loudness)
  from sum_truncate_match_frame [OF stm h5(1)] h5(2)
  show ?thesis by simp
qed

lemma target_sound_quality_frame:
  assumes run: "target_sound_quality env h g target dft dfn lct lcn np win sr = Inr (a, h', g')"
  shows "length h \<le> a \<and> take (length h) h' = h"
proof -
  from run obtain t h1 d h2 g1 m h3 g2 where
    aw: "as_wave env h target sr = (t, h1)"
    and dt: "distorted_target env h1 g (WaveObj t) dft lct np win sr = Inr (d, h2, g1)"
    and mn: "musical_noise env h2 g1 (WaveObj t) dfn lcn np win sr = Inr (m, h3, g2)"
    and stm: "sum_truncate_match env
                (fold (\<lambda>signal. assign_loudness env signal (-23)) [d, m] h3)
                t [d, m] = Inr (a, h')"
    by (auto simp: target_sound_quality_def Let_def split: sum.splits prod.splits)
  from as_wave_frame [OF aw]
  have f: "length h \<le> length h1" "take (length h) h1 = h" by auto
  from distorted_target_fresh [OF dt]
  have d: "length h1 \<le> d" "d < length h2" "take (length h1) h2 = h1" by auto
  from musical_noise_fresh [OF mn]
  have m: "length h2 \<le> m" "m < length h3" "take (length h2) h3 = h2" by auto
  have le: "length h \<le> length h1" "length h1 \<le> length h2" "length h2 \<le> length h3"
    using f d m by auto
  have "take (length h) h2 = take (length h) (take (length h1) h2)"
    using le by (simp add: min_def)
  then have t2: "take (length h) h2 = h" using d f by simp
  have "take (length h) h3 = take (length h) (take (length h2) h3)"
    using le by (simp add: min_def)
  then have t3: "take (length h) h3 = h" using m t2 by simp
  let ?h4 = "fold (\<lambda>signal. assign_loudness env signal (-23)) [d, m] h3"
  have h4: "length h \<le> length ?h4" "take (length h) ?h4 = h"
    using le d m t3 by (simp_all add: take_assign_loudness)
  from sum_truncate_match_frame [OF stm h4(1)] h4(2)
  show ?thesis by simp
qed

lemma frame_nth:
  assumes "length h \<le> a \<and> take (length h) h' = h"
  shows "length h \<le> a \<and> (\<forall>r<length h. h' ! r = h ! r)"
proof -
  have "h' ! r = h ! r" if "r < length h" for r
  proof -
    have "take (length h) h' ! r = h' ! r" using that by simp
    then show ?thesis using assms by simp
  qed
  then show ?thesis using assms by blast
qed


text \<open>
  Loudness is assigned to objects that the pipeline created, and the anchor is a new
  object: for \<open>distorted_target\<close>, \<open>musical_noise\<close>, \<open>artefacts\<close> and
  \<open>target_sound_quality\<close>, and for \<open>interference\<close> and \<open>overall_quality\<close> when \<open>others\<close>
  is a list, every object of the caller's store is the same after the call.
\<close>

lemma pipelines_leave_callers_store:
  "(\<forall>a h' g'. distorted_target env h g target dft lct np win sr = Inr (a, h', g')
      \<longrightarrow> length h \<le> a \<and> (\<forall>r<length h. h' ! r = h ! r))
   \<and> (\<forall>a h' g'. musical_noise env h g target dfn lcn np win sr = Inr (a, h', g')
      \<longrightarrow> length h \<le> a \<and> (\<forall>r<length h. h' ! r = h ! r))
   \<and> (\<forall>a h' g'. artefacts env h g target dfn lcn np win sr = Inr (a, h', g')
      \<longrightarrow> length h \<le> a \<and> (\<forall>r<length h. h' ! r = h ! r))
   \<and> (\<forall>a h'. interference env h target (OthersList os) rl sr = Inr (a, h')
      \<longrightarrow> length h \<le> a \<and> (\<forall>r<length h. h' ! r = h ! r))
   \<and> (\<forall>a h' g'. overall_quality env h g target (OthersList os) dft dfn lct lcn rl' np win sr
                   = Inr (a, h', g')
      \<longrightarrow> length h \<le> a \<and> (\<forall>r<length h. h' ! r = h ! r))
   \<and> (\<forall>a h' g'. target_sound_quality env h g target dft dfn lct lcn np win sr
                   = Inr (a, h', g')
      \<longrightarrow> length h \<le> a \<and> (\<forall>r<length h. h' ! r = h ! r))"
proof -
  have c1: "\<forall>a h' g'. distorted_target env h g target dft lct np win sr = Inr (a, h', g')
      \<longrightarrow> length h \<le> a \<and> (\<forall>r<length h. h' ! r = h ! r)"
  proof (intro allI impI, rule frame_nth)
    fix a h' g'
    assume "distorted_target env h g target dft lct np win sr = Inr (a, h', g')"
    from distorted_target_fresh [OF this]
    show "length h \<le> a \<and> take (length h) h' = h" by blast
  qed
  have c2: "\<forall>a h' g'. musical_noise env h g target dfn lcn np win sr = Inr (a, h', g')
      \<longrightarrow> length h \<le> a \<and> (\<forall>r<length h. h' ! r = h ! r)"
  proof (intro allI impI, rule frame_nth)
    fix a h' g'
    assume "musical_noise env h g target dfn lcn np win sr = Inr (a, h', g')"
    from musical_noise_fresh [OF this]
    show "length h \<le> a \<and> take (length h) h' = h" by blast
  qed
  have c3: "\<forall>a h' g'. artefacts env h g target dfn lcn np win sr = Inr (a, h', g')
      \<longrightarrow> length h \<le> a \<and> (\<forall>r<length h. h' ! r = h ! r)"
    by (intro allI impI, rule frame_nth) (rule artefacts_frame)
  have c4: "\<forall>a h'. interference env h target (OthersList os) rl sr = Inr (a, h')
      \<longrightarrow> length h \<le> a \<and> (\<forall>r<length h. h' ! r = h ! r)"
    by (intro allI impI, rule frame_nth) (rule interference_list_frame)
  have c5: "\<forall>a h' g'. overall_quality env h g target (OthersList os) dft dfn lct lcn rl' np
                         win sr = Inr (a, h', g')
      \<longrightarrow> length h \<le> a \<and> (\<forall>r<length h. h' ! r = h ! r)"
    by (intro allI impI, rule frame_nth) (rule overall_quality_list_frame)
  have c6: "\<forall>a h' g'. target_sound_quality env h g target dft dfn lct lcn np win sr
                   = Inr (a, h', g')
      \<longrightarrow> length h \<le> a \<and> (\<forall>r<length h. h' ! r = h ! r)"
    by (intro allI impI, rule frame_nth) (rule target_sound_quality_frame)
  from c1 c2 c3 c4 c5 c6 show ?thesis by (intro conjI)
qed

end
